theory Spec2Isabelle
  imports Main
begin

section \<open>The asset database connection (AzToolsFramework::AssetDatabase)\<close>

text \<open>
  A shallow embedding of \<^verbatim>\<open>AssetDatabaseConnection.cpp\<close> (the second document of
  \<^verbatim>\<open>dev/Code/Framework/AzCore/Tests/DLL.cpp\<close>): the entity records, the row loops
  that hand rows to a caller's handler, the query methods built on them, the
  open/validate/close life cycle, and the SQL text of the statements the properties
  below depend on.
\<close>

subsection \<open>Entities\<close>

text \<open>
  \<^verbatim>\<open>AZ::Uuid\<close> is a 128-bit identifier that this file only compares and tests for
  being null; \<^verbatim>\<open>AZ::s64\<close> keys and \<^verbatim>\<open>AZ::u32\<close> sub ids are only compared, never
  computed with, so they are read as numbers without a wrap-around.
\<close>

type_synonym Uuid = nat

definition IsNull :: "Uuid \<Rightarrow> bool" where
  "IsNull u = (u = 0)"

definition CreateNull :: Uuid where
  "CreateNull = 0"

record ScanFolderDatabaseEntry =
  m_scanFolderID :: int
  m_scanFolder :: string
  m_displayName :: string
  m_portableKey :: string
  m_outputPrefix :: string
  m_isRoot :: int

record SourceDatabaseEntry =
  m_sourceID :: int
  m_scanFolderPK :: int
  m_sourceName :: string
  m_sourceGuid :: Uuid
  m_analysisFingerprint :: string

text \<open>
  \<^verbatim>\<open>AssetSystem::JobStatus\<close> is declared outside this file, which names only its
  wildcard \<^verbatim>\<open>Any\<close>; the other values are the statuses of a job.
\<close>

datatype JobStatus = Any | Queued | InProgress | Failed | Completed | Missing

record JobDatabaseEntry =
  m_jobID :: int
  m_sourcePK :: int
  m_jobKey :: string
  m_fingerprint :: nat
  m_platform :: string
  m_builderGuid :: Uuid
  m_status :: JobStatus
  m_jobRunKey :: nat
  m_firstFailLogTime :: int
  m_firstFailLogFile :: string
  m_lastFailLogTime :: int
  m_lastFailLogFile :: string
  m_lastLogTime :: int
  m_lastLogFile :: string

record ProductDatabaseEntry =
  m_productID :: int
  m_jobPK :: int
  m_productName :: string
  m_subID :: nat
  m_assetType :: Uuid
  m_legacyGuid :: Uuid

subsection \<open>Entity equality\<close>





record LegacySubIDsEntry =
  m_subIDsEntryID :: int
  legacy_m_productPK :: int
  legacy_m_subID :: nat

text \<open>
  \<^verbatim>\<open>CombinedDatabaseEntry\<close> derives from the four entries (its columns are theirs,
  combined) and adds the legacy sub ids.
\<close>

record CombinedDatabaseEntry =
  scanFolderColumns :: ScanFolderDatabaseEntry
  sourceColumns :: SourceDatabaseEntry
  jobColumns :: JobDatabaseEntry
  productColumns :: ProductDatabaseEntry
  m_legacySubIDs :: "LegacySubIDsEntry list"

subsection \<open>Statements and handlers\<close>

datatype SqlStatus = SqlError | SqlOK | SqlDone

text \<open>
  A bound statement as a row loop sees it. \<open>pending\<close> are the rows that
  \<^verbatim>\<open>Step\<close> still reaches, each answered with \<^verbatim>\<open>SqlOK\<close>; a row is the entry
  that \<^verbatim>\<open>Fetch\<close> reads from its columns, or \<open>None\<close> when \<^verbatim>\<open>Fetch\<close> fails
  on it. After the last row \<^verbatim>\<open>Step\<close> answers \<open>atEnd\<close>: \<^verbatim>\<open>SqlDone\<close>, or
  \<^verbatim>\<open>SqlError\<close> when the store fails.
\<close>

datatype StepEnd = Done | Error

datatype 'r Statement = Statement (pending: "'r option list") (atEnd: StepEnd)

fun Step :: "'r Statement \<Rightarrow> SqlStatus" where
  "Step (Statement [] Done) = SqlDone"
| "Step (Statement [] Error) = SqlError"
| "Step (Statement (row # rows) e) = SqlOK"

text \<open>
  A handler is the caller's closure: it receives the entry, may change what it
  captured (the state \<open>'s\<close>), and answers whether it wants more rows.
\<close>

type_synonym ('r, 's) handler = "'r \<Rightarrow> 's \<Rightarrow> bool \<times> 's"

text \<open>
  A handler that also keeps the entries it was called with, in order: a caller that
  counts its invocations.
\<close>

definition recording :: "('r, 's) handler \<Rightarrow> ('r, 'r list \<times> 's) handler" where
  "recording handler entry = (\<lambda>(seen, s).
     let (proceed, s') = handler entry s in (proceed, (seen @ [entry], s')))"

subsection \<open>The row loops\<close>

text \<open>
  \<^verbatim>\<open>GetResult<TEntry>\<close>. \<open>GetResult_while\<close> is the state at the head of the
  \<^verbatim>\<open>while (result == SqlOK)\<close> loop: the rows from the current one on, what follows
  them, and \<^verbatim>\<open>validResult\<close>.
\<close>

fun GetResult_while ::
  "('r, 's) handler \<Rightarrow> 'r option list \<Rightarrow> StepEnd \<Rightarrow> bool \<Rightarrow> 's \<Rightarrow> bool \<times> 's" where
  "GetResult_while handler [] e validResult s =
     (if e = Error then (False, s) else (validResult, s))"
| "GetResult_while handler (None # rows) e validResult s = (False, s)"
| "GetResult_while handler (Some entry # rows) e validResult s =
     (let (proceed, s') = handler entry s in
      if proceed then GetResult_while handler rows e True s'
      else (True, s'))"

definition GetResult :: "'r Statement \<Rightarrow> ('r, 's) handler \<Rightarrow> 's \<Rightarrow> bool \<times> 's" where
  "GetResult statement handler s =
     GetResult_while handler (pending statement) (atEnd statement)
       (Step statement = SqlDone) s"

text \<open>
  \<^verbatim>\<open>ResultMatchesJobCriteria\<close>: the optional criteria; a null job key, a null
  builder guid and the status \<^verbatim>\<open>Any\<close> accept every row.
\<close>

definition ResultMatchesJobCriteria ::
  "string option \<Rightarrow> Uuid \<Rightarrow> JobStatus \<Rightarrow> string \<Rightarrow> Uuid \<Rightarrow> JobStatus \<Rightarrow> bool" where
  "ResultMatchesJobCriteria jobKey builderGuid status savedJobKey savedBuilderGuid savedJobStatus =
     ((case jobKey of Some k \<Rightarrow> savedJobKey = k | None \<Rightarrow> True)
      \<and> (if \<not> IsNull builderGuid then savedBuilderGuid = builderGuid else True)
      \<and> (if status \<noteq> Any then savedJobStatus = status else True))"

text \<open>\<^verbatim>\<open>GetJobResult\<close>: a row that fails the criteria is stepped over.\<close>

fun GetJobResult_while ::
  "(JobDatabaseEntry, 's) handler \<Rightarrow> Uuid \<Rightarrow> string option \<Rightarrow> JobStatus \<Rightarrow>
   JobDatabaseEntry option list \<Rightarrow> StepEnd \<Rightarrow> bool \<Rightarrow> 's \<Rightarrow> bool \<times> 's" where
  "GetJobResult_while handler builderGuid jobKey status [] e validResult s =
     (if e = Error then (False, s) else (validResult, s))"
| "GetJobResult_while handler builderGuid jobKey status (None # rows) e validResult s = (False, s)"
| "GetJobResult_while handler builderGuid jobKey status (Some job # rows) e validResult s =
     (if ResultMatchesJobCriteria jobKey builderGuid status
           (m_jobKey job) (m_builderGuid job) (m_status job)
      then (let (proceed, s') = handler job s in
            if proceed then GetJobResult_while handler builderGuid jobKey status rows e True s'
            else (True, s'))
      else GetJobResult_while handler builderGuid jobKey status rows e True s)"

definition GetJobResult ::
  "JobDatabaseEntry Statement \<Rightarrow> (JobDatabaseEntry, 's) handler \<Rightarrow>
   Uuid \<Rightarrow> string option \<Rightarrow> JobStatus \<Rightarrow> 's \<Rightarrow> bool \<times> 's" where
  "GetJobResult statement handler builderGuid jobKey status s =
     GetJobResult_while handler builderGuid jobKey status (pending statement) (atEnd statement)
       (Step statement = SqlDone) s"

text \<open>
  \<^verbatim>\<open>GetJobResultSimple\<close> leaves the criteria to their defaults, which the
  declaration outside this file gives: no builder, no job key, any status.
\<close>

definition GetJobResultSimple ::
  "JobDatabaseEntry Statement \<Rightarrow> (JobDatabaseEntry, 's) handler \<Rightarrow> 's \<Rightarrow> bool \<times> 's" where
  "GetJobResultSimple statement handler s =
     GetJobResult statement handler CreateNull None Any s"

text \<open>
  \<^verbatim>\<open>GetProductResult\<close> reads a row column by column: the job columns only for the
  criteria that are set, the product columns only for a row that meets the criteria. A
  row of its statements therefore says, for each group of columns, what
  \<^verbatim>\<open>Fetch\<close> reads, or \<open>None\<close> where it fails (the statement has no such column).
\<close>

record ProductRow =
  productFetch :: "ProductDatabaseEntry option"
  jobKeyFetch :: "string option"
  builderGuidFetch :: "Uuid option"
  statusFetch :: "JobStatus option"

text \<open>
  \<open>saved\<close> holds \<^verbatim>\<open>savedJobKey\<close>, \<^verbatim>\<open>savedBuilderGuid\<close> and
  \<^verbatim>\<open>savedJobStatus\<close>, which keep their value over a row whose column was not read.
\<close>

fun GetProductResult_while ::
  "(ProductDatabaseEntry, 's) handler \<Rightarrow> Uuid \<Rightarrow> string option \<Rightarrow> JobStatus \<Rightarrow>
   ProductRow option list \<Rightarrow> StepEnd \<Rightarrow> bool \<Rightarrow> string \<times> Uuid \<times> JobStatus \<Rightarrow> 's \<Rightarrow> bool \<times> 's" where
  "GetProductResult_while handler builderGuid jobKey status [] e validResult saved s =
     (if e = Error then (False, s) else (validResult, s))"
| "GetProductResult_while handler builderGuid jobKey status (None # rows) e validResult saved s =
     (False, s)"
| "GetProductResult_while handler builderGuid jobKey status (Some row # rows) e validResult saved s =
     (if (jobKey \<noteq> None \<and> jobKeyFetch row = None)
         \<or> (\<not> IsNull builderGuid \<and> builderGuidFetch row = None)
         \<or> (status \<noteq> Any \<and> statusFetch row = None)
      then (False, s)
      else
        (let (savedJobKey, savedBuilderGuid, savedJobStatus) = saved;
             savedJobKey' = (if jobKey \<noteq> None
                then (case jobKeyFetch row of Some k \<Rightarrow> k | None \<Rightarrow> savedJobKey)
                else savedJobKey);
             savedBuilderGuid' = (if \<not> IsNull builderGuid
                then (case builderGuidFetch row of Some g \<Rightarrow> g | None \<Rightarrow> savedBuilderGuid)
                else savedBuilderGuid);
             savedJobStatus' = (if status \<noteq> Any
                then (case statusFetch row of Some t \<Rightarrow> t | None \<Rightarrow> savedJobStatus)
                else savedJobStatus);
             saved' = (savedJobKey', savedBuilderGuid', savedJobStatus')
         in if ResultMatchesJobCriteria jobKey builderGuid status
                 savedJobKey' savedBuilderGuid' savedJobStatus'
            then (case productFetch row of
                    None \<Rightarrow> (False, s)
                  | Some product \<Rightarrow>
                      (let (proceed, s') = handler product s in
                       if proceed
                       then GetProductResult_while handler builderGuid jobKey status
                              rows e True saved' s'
                       else (True, s')))
            else GetProductResult_while handler builderGuid jobKey status
                   rows e True saved' s))"

text \<open>
  The saved values start empty or unset; none is read before its column was fetched,
  so the start values below never reach a comparison.
\<close>

definition GetProductResult ::
  "ProductRow Statement \<Rightarrow> (ProductDatabaseEntry, 's) handler \<Rightarrow>
   Uuid \<Rightarrow> string option \<Rightarrow> JobStatus \<Rightarrow> 's \<Rightarrow> bool \<times> 's" where
  "GetProductResult statement handler builderGuid jobKey status s =
     GetProductResult_while handler builderGuid jobKey status (pending statement)
       (atEnd statement) (Step statement = SqlDone) ([], CreateNull, Any) s"

definition GetProductResultSimple ::
  "ProductRow Statement \<Rightarrow> (ProductDatabaseEntry, 's) handler \<Rightarrow> 's \<Rightarrow> bool \<times> 's" where
  "GetProductResultSimple statement handler s =
     GetProductResult statement handler CreateNull None Any s"

subsection \<open>The connection and its prepared statements\<close>

record ProductDependencyDatabaseEntry =
  m_productDependencyID :: int
  m_productPK :: int
  m_dependencySourceGuid :: Uuid
  m_dependencySubID :: nat
  m_dependencyFlags :: nat
  dependency_m_platform :: string
  m_unresolvedPath :: string
  m_dependencyType :: nat

record BuilderInfoEntry =
  m_builderInfoID :: int
  m_builderUuid :: Uuid
  builder_m_analysisFingerprint :: string

datatype DatabaseVersion = DatabaseDoesNotExist | Version int

record DatabaseInfoEntry =
  m_rowID :: int
  m_version :: DatabaseVersion

text \<open>
  The open store connection, as this file uses it: for each prepared statement (the
  \<^verbatim>\<open>s_query...\<close> objects) what binding the arguments gives, a statement ready to
  step or \<open>None\<close> when the bind fails; which tables exist; and whether the
  connection is open. The store itself is an
  external collaborator, so a connection may answer anything; \<open>connect\<close> below is the
  connection to a healthy store that holds given tables.
\<close>

record Connection =
  s_queryDatabaseinfoTable :: "DatabaseInfoEntry Statement option"
  s_queryBuilderInfoTable :: "BuilderInfoEntry Statement option"
  s_queryLegacysubidsbyproductid :: "int \<Rightarrow> LegacySubIDsEntry Statement option"
  s_querySourceBySourceid :: "int \<Rightarrow> SourceDatabaseEntry Statement option"
  s_querySourceBySourcename :: "string \<Rightarrow> SourceDatabaseEntry Statement option"
  s_queryJobByJobid :: "int \<Rightarrow> JobDatabaseEntry Statement option"
  s_queryJobByJobkey :: "string \<Rightarrow> JobDatabaseEntry Statement option"
  s_queryJobByJobrunkey :: "nat \<Rightarrow> JobDatabaseEntry Statement option"
  s_queryJobBySourceid :: "int \<Rightarrow> JobDatabaseEntry Statement option"
  s_queryJobBySourceidPlatform :: "int \<Rightarrow> string \<Rightarrow> JobDatabaseEntry Statement option"
  s_queryCombinedBySourceid :: "int \<Rightarrow> CombinedDatabaseEntry Statement option"
  s_queryCombinedBySourceidPlatform ::
    "int \<Rightarrow> string \<Rightarrow> CombinedDatabaseEntry Statement option"
  s_queryCombinedByJobid :: "int \<Rightarrow> CombinedDatabaseEntry Statement option"
  s_queryCombinedByJobidPlatform :: "int \<Rightarrow> string \<Rightarrow> CombinedDatabaseEntry Statement option"
  s_queryCombinedByProductid :: "int \<Rightarrow> CombinedDatabaseEntry Statement option"
  s_queryCombinedByProductidPlatform ::
    "int \<Rightarrow> string \<Rightarrow> CombinedDatabaseEntry Statement option"
  s_queryAllProductdependencies :: "int \<Rightarrow> ProductRow Statement option"
  s_queryUnresolvedProductDependencies :: "ProductDependencyDatabaseEntry Statement option"
  DoesTableExist :: "string \<Rightarrow> bool"
  IsOpen :: bool

text \<open>
  Modelled from the spec: \<^verbatim>\<open>SqlQuery::BindAndQuery\<close> and
  \<^verbatim>\<open>BindAndThen(...).Query\<close> (SQLiteQuery.h, outside this file) bind the arguments
  and run the given row loop over the statement; a bind that fails is "surfaced as a
  false return from the originating query call", before any row is stepped.
\<close>

definition BindAndQuery ::
  "'r Statement option \<Rightarrow> ('r Statement \<Rightarrow> 's \<Rightarrow> bool \<times> 's) \<Rightarrow> 's \<Rightarrow> bool \<times> 's" where
  "BindAndQuery bound callback s =
     (case bound of None \<Rightarrow> (False, s) | Some statement \<Rightarrow> callback statement s)"

subsection \<open>Query methods built directly on a row loop\<close>

definition QueryDatabaseInfoTable ::
  "Connection \<Rightarrow> (DatabaseInfoEntry, 's) handler \<Rightarrow> 's \<Rightarrow> bool \<times> 's" where
  "QueryDatabaseInfoTable conn handler s =
     BindAndQuery (s_queryDatabaseinfoTable conn) (\<lambda>statement. GetResult statement handler) s"

definition QueryLegacySubIdsByProductID ::
  "Connection \<Rightarrow> int \<Rightarrow> (LegacySubIDsEntry, 's) handler \<Rightarrow> 's \<Rightarrow> bool \<times> 's" where
  "QueryLegacySubIdsByProductID conn productId handler s =
     BindAndQuery (s_queryLegacysubidsbyproductid conn productId)
       (\<lambda>statement. GetResult statement handler) s"

definition QuerySourceBySourceID ::
  "Connection \<Rightarrow> int \<Rightarrow> (SourceDatabaseEntry, 's) handler \<Rightarrow> 's \<Rightarrow> bool \<times> 's" where
  "QuerySourceBySourceID conn sourceid handler s =
     BindAndQuery (s_querySourceBySourceid conn sourceid)
       (\<lambda>statement. GetResult statement handler) s"

definition QuerySourceBySourceName ::
  "Connection \<Rightarrow> string \<Rightarrow> (SourceDatabaseEntry, 's) handler \<Rightarrow> 's \<Rightarrow> bool \<times> 's" where
  "QuerySourceBySourceName conn exactSourceName handler s =
     BindAndQuery (s_querySourceBySourcename conn exactSourceName)
       (\<lambda>statement. GetResult statement handler) s"

definition QueryJobByJobID ::
  "Connection \<Rightarrow> int \<Rightarrow> (JobDatabaseEntry, 's) handler \<Rightarrow> 's \<Rightarrow> bool \<times> 's" where
  "QueryJobByJobID conn jobid handler s =
     BindAndQuery (s_queryJobByJobid conn jobid)
       (\<lambda>statement. GetJobResultSimple statement handler) s"

definition QueryJobByJobKey ::
  "Connection \<Rightarrow> string \<Rightarrow> (JobDatabaseEntry, 's) handler \<Rightarrow> 's \<Rightarrow> bool \<times> 's" where
  "QueryJobByJobKey conn jobKey handler s =
     BindAndQuery (s_queryJobByJobkey conn jobKey)
       (\<lambda>statement. GetJobResultSimple statement handler) s"

definition QueryJobByJobRunKey ::
  "Connection \<Rightarrow> nat \<Rightarrow> (JobDatabaseEntry, 's) handler \<Rightarrow> 's \<Rightarrow> bool \<times> 's" where
  "QueryJobByJobRunKey conn jobrunkey handler s =
     BindAndQuery (s_queryJobByJobrunkey conn jobrunkey)
       (\<lambda>statement. GetJobResultSimple statement handler) s"

text \<open>
  \<^verbatim>\<open>if (platform && strlen(platform))\<close>: a platform that is neither null nor empty
  selects the statement with the platform parameter.
\<close>

definition hasPlatform :: "string option \<Rightarrow> bool" where
  "hasPlatform platform = (case platform of None \<Rightarrow> False | Some p \<Rightarrow> p \<noteq> [])"

definition platformText :: "string option \<Rightarrow> string" where
  "platformText platform = (case platform of None \<Rightarrow> [] | Some p \<Rightarrow> p)"

definition QueryJobBySourceID ::
  "Connection \<Rightarrow> int \<Rightarrow> (JobDatabaseEntry, 's) handler \<Rightarrow>
   Uuid \<Rightarrow> string option \<Rightarrow> string option \<Rightarrow> JobStatus \<Rightarrow> 's \<Rightarrow> bool \<times> 's" where
  "QueryJobBySourceID conn sourceID handler builderGuid jobKey platform status s =
     (if hasPlatform platform
      then BindAndQuery (s_queryJobBySourceidPlatform conn sourceID (platformText platform))
             (\<lambda>statement. GetJobResult statement handler builderGuid jobKey status) s
      else BindAndQuery (s_queryJobBySourceid conn sourceID)
             (\<lambda>statement. GetJobResult statement handler builderGuid jobKey status) s)"

definition QueryUnresolvedProductDependencies ::
  "Connection \<Rightarrow> (ProductDependencyDatabaseEntry, 's) handler \<Rightarrow> 's \<Rightarrow> bool \<times> 's" where
  "QueryUnresolvedProductDependencies conn handler s =
     BindAndQuery (s_queryUnresolvedProductDependencies conn)
       (\<lambda>statement. GetResult statement handler) s"

definition QueryAllProductDependencies ::
  "Connection \<Rightarrow> int \<Rightarrow> (ProductDatabaseEntry, 's) handler \<Rightarrow> 's \<Rightarrow> bool \<times> 's" where
  "QueryAllProductDependencies conn productID handler s =
     BindAndQuery (s_queryAllProductdependencies conn productID)
       (\<lambda>statement. GetProductResultSimple statement handler) s"

text \<open>
  \<^verbatim>\<open>QueryBuilderInfoTable\<close> has a loop of its own: the handler's \<^verbatim>\<open>false\<close> leaves
  it with \<^verbatim>\<open>break\<close>.
\<close>

fun QueryBuilderInfoTable_while ::
  "(BuilderInfoEntry, 's) handler \<Rightarrow> BuilderInfoEntry option list \<Rightarrow> StepEnd \<Rightarrow> 's \<Rightarrow> bool \<times> 's"
  where
  "QueryBuilderInfoTable_while handler [] e s = (if e = Error then (False, s) else (True, s))"
| "QueryBuilderInfoTable_while handler (None # rows) e s = (False, s)"
| "QueryBuilderInfoTable_while handler (Some entry # rows) e s =
     (let (proceed, s') = handler entry s in
      if \<not> proceed then (True, s')
      else QueryBuilderInfoTable_while handler rows e s')"

definition QueryBuilderInfoTable ::
  "Connection \<Rightarrow> (BuilderInfoEntry, 's) handler \<Rightarrow> 's \<Rightarrow> bool \<times> 's" where
  "QueryBuilderInfoTable conn handler s =
     (case s_queryBuilderInfoTable conn of
        None \<Rightarrow> (False, s)
      | Some statement \<Rightarrow>
          if Step statement = SqlError then (False, s)
          else QueryBuilderInfoTable_while handler (pending statement) (atEnd statement) s)"

subsection \<open>Combined rows\<close>

text \<open>
  \<^verbatim>\<open>GetCombinedResult\<close>. The variable \<^verbatim>\<open>combined\<close> lives across the rows:
  \<^verbatim>\<open>Fetch\<close> overwrites its columns, and with \<^verbatim>\<open>includeLegacySubIDs\<close> the inner
  query appends to its \<^verbatim>\<open>m_legacySubIDs\<close>, which \<open>legacy\<close> carries from row to row.
  The inner query's own result is not looked at. (A handler receives the entry by
  value here; one that empties the entry it is handed would also empty \<open>legacy\<close>.)
\<close>

fun GetCombinedResult_while ::
  "Connection \<Rightarrow> (CombinedDatabaseEntry, 's) handler \<Rightarrow> Uuid \<Rightarrow> string option \<Rightarrow>
   JobStatus \<Rightarrow> bool \<Rightarrow> CombinedDatabaseEntry option list \<Rightarrow> StepEnd \<Rightarrow> bool \<Rightarrow>
   LegacySubIDsEntry list \<Rightarrow> 's \<Rightarrow> bool \<times> 's" where
  "GetCombinedResult_while conn handler builderGuid jobKey status includeLegacySubIDs
       [] e validResult legacy s =
     (if e = Error then (False, s) else (validResult, s))"
| "GetCombinedResult_while conn handler builderGuid jobKey status includeLegacySubIDs
       (None # rows) e validResult legacy s = (False, s)"
| "GetCombinedResult_while conn handler builderGuid jobKey status includeLegacySubIDs
       (Some fetched # rows) e validResult legacy s =
     (if ResultMatchesJobCriteria jobKey builderGuid status
           (m_jobKey (jobColumns fetched)) (m_builderGuid (jobColumns fetched))
           (m_status (jobColumns fetched))
      then
        (let legacy' =
               (if includeLegacySubIDs
                then snd (QueryLegacySubIdsByProductID conn (m_productID (productColumns fetched))
                            (\<lambda>entry subIDs. (True, subIDs @ [entry])) legacy)
                else legacy);
             (proceed, s') = handler (fetched\<lparr>m_legacySubIDs := legacy'\<rparr>) s
         in if proceed
            then GetCombinedResult_while conn handler builderGuid jobKey status
                   includeLegacySubIDs rows e True legacy' s'
            else (True, s'))
      else GetCombinedResult_while conn handler builderGuid jobKey status
             includeLegacySubIDs rows e True legacy s)"

definition GetCombinedResult ::
  "Connection \<Rightarrow> CombinedDatabaseEntry Statement \<Rightarrow> (CombinedDatabaseEntry, 's) handler \<Rightarrow>
   Uuid \<Rightarrow> string option \<Rightarrow> JobStatus \<Rightarrow> bool \<Rightarrow> 's \<Rightarrow> bool \<times> 's" where
  "GetCombinedResult conn statement handler builderGuid jobKey status includeLegacySubIDs s =
     GetCombinedResult_while conn handler builderGuid jobKey status includeLegacySubIDs
       (pending statement) (atEnd statement) (Step statement = SqlDone) [] s"

text \<open>
  \<^verbatim>\<open>GetCombinedResultAsLambda\<close> calls \<^verbatim>\<open>GetCombinedResult\<close> without the last
  argument, whose default (declared outside this file) is not to include the legacy
  sub ids.
\<close>

definition GetCombinedResultAsLambda ::
  "Connection \<Rightarrow> CombinedDatabaseEntry Statement \<Rightarrow> (CombinedDatabaseEntry, 's) handler \<Rightarrow>
   Uuid \<Rightarrow> string option \<Rightarrow> JobStatus \<Rightarrow> 's \<Rightarrow> bool \<times> 's" where
  "GetCombinedResultAsLambda conn statement handler builderGuid jobKey status s =
     GetCombinedResult conn statement handler builderGuid jobKey status False s"

definition QueryCombinedBySourceID ::
  "Connection \<Rightarrow> int \<Rightarrow> (CombinedDatabaseEntry, 's) handler \<Rightarrow>
   Uuid \<Rightarrow> string option \<Rightarrow> string option \<Rightarrow> JobStatus \<Rightarrow> 's \<Rightarrow> bool \<times> 's" where
  "QueryCombinedBySourceID conn sourceID handler builderGuid jobKey platform status s =
     (if hasPlatform platform
      then BindAndQuery (s_queryCombinedBySourceidPlatform conn sourceID (platformText platform))
             (\<lambda>statement. GetCombinedResultAsLambda conn statement handler builderGuid jobKey status) s
      else BindAndQuery (s_queryCombinedBySourceid conn sourceID)
             (\<lambda>statement. GetCombinedResultAsLambda conn statement handler builderGuid jobKey status) s)"

definition QueryCombinedByJobID ::
  "Connection \<Rightarrow> int \<Rightarrow> (CombinedDatabaseEntry, 's) handler \<Rightarrow>
   Uuid \<Rightarrow> string option \<Rightarrow> string option \<Rightarrow> JobStatus \<Rightarrow> 's \<Rightarrow> bool \<times> 's" where
  "QueryCombinedByJobID conn jobID handler builderGuid jobKey platform status s =
     (if hasPlatform platform
      then BindAndQuery (s_queryCombinedByJobidPlatform conn jobID (platformText platform))
             (\<lambda>statement. GetCombinedResultAsLambda conn statement handler builderGuid jobKey status) s
      else BindAndQuery (s_queryCombinedByJobid conn jobID)
             (\<lambda>statement. GetCombinedResultAsLambda conn statement handler builderGuid jobKey status) s)"

definition QueryCombinedByProductID ::
  "Connection \<Rightarrow> int \<Rightarrow> (CombinedDatabaseEntry, 's) handler \<Rightarrow>
   Uuid \<Rightarrow> string option \<Rightarrow> string option \<Rightarrow> JobStatus \<Rightarrow> 's \<Rightarrow> bool \<times> 's" where
  "QueryCombinedByProductID conn productID handler builderGuid jobKey platform status s =
     (if hasPlatform platform
      then BindAndQuery (s_queryCombinedByProductidPlatform conn productID (platformText platform))
             (\<lambda>statement. GetCombinedResultAsLambda conn statement handler builderGuid jobKey status) s
      else BindAndQuery (s_queryCombinedByProductid conn productID)
             (\<lambda>statement. GetCombinedResultAsLambda conn statement handler builderGuid jobKey status) s)"

subsection \<open>Projections of the combined queries\<close>

text \<open>
  The scan folder of a combined row is its \<^verbatim>\<open>ScanFolderDatabaseEntry\<close> part. The
  optional arguments of \<^verbatim>\<open>QueryCombinedBy...\<close> that a call leaves out take the
  defaults of the declaration: no builder, no job key, no platform, any status.
\<close>

definition QueryScanFolderBySourceID ::
  "Connection \<Rightarrow> int \<Rightarrow> (ScanFolderDatabaseEntry, 's) handler \<Rightarrow> 's \<Rightarrow> bool \<times> 's" where
  "QueryScanFolderBySourceID conn sourceID handler s =
     (let (succeeded, (found, s')) =
            QueryCombinedBySourceID conn sourceID
              (\<lambda>combined (found, st).
                 let (proceed, st') = handler (scanFolderColumns combined) st
                 in (proceed, (True, st')))
              CreateNull None None Any (False, s)
      in (found \<and> succeeded, s'))"

definition QueryScanFolderByJobID ::
  "Connection \<Rightarrow> int \<Rightarrow> (ScanFolderDatabaseEntry, 's) handler \<Rightarrow> 's \<Rightarrow> bool \<times> 's" where
  "QueryScanFolderByJobID conn jobID handler s =
     (let (succeeded, (found, s')) =
            QueryCombinedByJobID conn jobID
              (\<lambda>combined (found, st).
                 let (proceed, st') = handler (scanFolderColumns combined) st
                 in (proceed, (True, st')))
              CreateNull None None Any (False, s)
      in (found \<and> succeeded, s'))"

definition QueryScanFolderByProductID ::
  "Connection \<Rightarrow> int \<Rightarrow> (ScanFolderDatabaseEntry, 's) handler \<Rightarrow> 's \<Rightarrow> bool \<times> 's" where
  "QueryScanFolderByProductID conn productID handler s =
     (let (succeeded, (found, s')) =
            QueryCombinedBySourceID conn productID
              (\<lambda>combined (found, st).
                 let (proceed, st') = handler (scanFolderColumns combined) st
                 in (proceed, (True, st')))
              CreateNull None None Any (False, s)
      in (found \<and> succeeded, s'))"

text \<open>
  \<^verbatim>\<open>QuerySourceByJobID\<close> and \<^verbatim>\<open>QuerySourceByProductID\<close> hand over one source:
  their lambda calls the handler and answers \<^verbatim>\<open>false\<close> ("one") whatever the
  handler said.
\<close>

definition QuerySourceByJobID ::
  "Connection \<Rightarrow> int \<Rightarrow> (SourceDatabaseEntry, 's) handler \<Rightarrow> 's \<Rightarrow> bool \<times> 's" where
  "QuerySourceByJobID conn jobid handler s =
     QueryCombinedByJobID conn jobid
       (\<lambda>combined st. let (proceed, st') = handler (sourceColumns combined) st in (False, st'))
       CreateNull None None Any s"

definition QuerySourceByProductID ::
  "Connection \<Rightarrow> int \<Rightarrow> (SourceDatabaseEntry, 's) handler \<Rightarrow> 's \<Rightarrow> bool \<times> 's" where
  "QuerySourceByProductID conn productid handler s =
     QueryCombinedByProductID conn productid
       (\<lambda>combined st. let (proceed, st') = handler (sourceColumns combined) st in (False, st'))
       CreateNull None None Any s"

subsection \<open>Job info projections\<close>

text \<open>
  \<^verbatim>\<open>AssetSystem::JobInfo\<close> is declared outside this file; these are the fields this
  file assigns.
\<close>

record JobInfo =
  m_sourceFile :: string
  m_watchFolder :: string
  info_m_platform :: string
  info_m_builderGuid :: Uuid
  info_m_jobKey :: string
  info_m_status :: JobStatus
  info_m_jobRunKey :: nat
  info_m_firstFailLogTime :: int
  info_m_firstFailLogFile :: string
  info_m_lastFailLogTime :: int
  info_m_lastFailLogFile :: string
  info_m_lastLogTime :: int
  info_m_lastLogFile :: string
  info_m_jobID :: int

definition PopulateJobInfo :: "JobInfo \<Rightarrow> JobDatabaseEntry \<Rightarrow> JobInfo" where
  "PopulateJobInfo jobinfo jobDatabaseEntry =
     jobinfo\<lparr>info_m_platform := m_platform jobDatabaseEntry,
             info_m_builderGuid := m_builderGuid jobDatabaseEntry,
             info_m_jobKey := m_jobKey jobDatabaseEntry,
             info_m_status := m_status jobDatabaseEntry,
             info_m_jobRunKey := m_jobRunKey jobDatabaseEntry,
             info_m_firstFailLogTime := m_firstFailLogTime jobDatabaseEntry,
             info_m_firstFailLogFile := m_firstFailLogFile jobDatabaseEntry,
             info_m_lastFailLogTime := m_lastFailLogTime jobDatabaseEntry,
             info_m_lastFailLogFile := m_lastFailLogFile jobDatabaseEntry,
             info_m_lastLogTime := m_lastLogTime jobDatabaseEntry,
             info_m_lastLogFile := m_lastLogFile jobDatabaseEntry,
             info_m_jobID := m_jobID jobDatabaseEntry\<rparr>"

text \<open>
  A default-constructed \<^verbatim>\<open>JobInfo\<close> and \<^verbatim>\<open>SourceDatabaseEntry\<close>: empty strings;
  the numbers and the status are assigned by \<^verbatim>\<open>PopulateJobInfo\<close>, or by the found
  source, before anything reads them.
\<close>

definition JobInfo_default :: JobInfo where
  "JobInfo_default =
     \<lparr>m_sourceFile = [], m_watchFolder = [], info_m_platform = [],
      info_m_builderGuid = CreateNull, info_m_jobKey = [], info_m_status = Any,
      info_m_jobRunKey = 0, info_m_firstFailLogTime = 0, info_m_firstFailLogFile = [],
      info_m_lastFailLogTime = 0, info_m_lastFailLogFile = [], info_m_lastLogTime = 0,
      info_m_lastLogFile = [], info_m_jobID = 0\<rparr>"

definition SourceDatabaseEntry_default :: SourceDatabaseEntry where
  "SourceDatabaseEntry_default =
     \<lparr>m_sourceID = -1, m_scanFolderPK = -1, m_sourceName = [], m_sourceGuid = CreateNull,
      m_analysisFingerprint = []\<rparr>"

definition QueryJobInfoByJobID ::
  "Connection \<Rightarrow> int \<Rightarrow> (JobInfo, 's) handler \<Rightarrow> 's \<Rightarrow> bool \<times> 's" where
  "QueryJobInfoByJobID conn jobID handler s =
     (let (succeeded, (found, source)) =
            QuerySourceByJobID conn jobID
              (\<lambda>entry (found, source). (False, (True, entry)))
              (False, SourceDatabaseEntry_default)
      in if \<not> found \<or> \<not> succeeded then (False, s)
         else
           (let (succeeded', (found', s')) =
                  QueryJobByJobID conn jobID
                    (\<lambda>entry (found, st).
                       let jobinfo = JobInfo_default\<lparr>m_sourceFile := m_sourceName source\<rparr>;
                           (proceed, st') = handler (PopulateJobInfo jobinfo entry) st
                       in (proceed, (True, st')))
                    (False, s)
            in (found' \<and> succeeded', s')))"

text \<open>
  In the next two, the inner query's result is assigned to \<^verbatim>\<open>succeeded\<close> while the
  outer call is still running; the outer call's own result then replaces it.
  \<^verbatim>\<open>found\<close> is shared by all rows.
\<close>

definition QueryJobInfoByJobRunKey ::
  "Connection \<Rightarrow> nat \<Rightarrow> (JobInfo, 's) handler \<Rightarrow> 's \<Rightarrow> bool \<times> 's" where
  "QueryJobInfoByJobRunKey conn jobRunKey handler s =
     (let (succeeded, (found, s')) =
            QueryJobByJobRunKey conn jobRunKey
              (\<lambda>entry (found, st).
                 let (inner, (found', jobinfo)) =
                       QuerySourceBySourceID conn (m_sourcePK entry)
                         (\<lambda>sourceEntry (found, jobinfo).
                            (True, (True, jobinfo\<lparr>m_sourceFile := m_sourceName sourceEntry\<rparr>)))
                         (found, JobInfo_default)
                 in if \<not> found' then (False, (found', st))
                    else (let (proceed, st') = handler (PopulateJobInfo jobinfo entry) st
                          in (proceed, (found', st'))))
              (False, s)
      in (found \<and> succeeded, s'))"

definition QueryJobInfoByJobKey ::
  "Connection \<Rightarrow> string \<Rightarrow> (JobInfo, 's) handler \<Rightarrow> 's \<Rightarrow> bool \<times> 's" where
  "QueryJobInfoByJobKey conn jobKey handler s =
     (let (succeeded, (found, s')) =
            QueryJobByJobKey conn jobKey
              (\<lambda>entry (found, st).
                 let (inner, (found', jobinfo)) =
                       QuerySourceBySourceID conn (m_sourcePK entry)
                         (\<lambda>sourceEntry (found, jobinfo).
                            let jobinfo' = jobinfo\<lparr>m_sourceFile := m_sourceName sourceEntry\<rparr>;
                                (scan, folderSeen) =
                                  QueryScanFolderBySourceID conn (m_sourceID sourceEntry)
                                    (\<lambda>scanFolderEntry (found, jobinfo).
                                       (False, (True,
                                          jobinfo\<lparr>m_watchFolder := m_scanFolder scanFolderEntry\<rparr>)))
                                    (found, jobinfo')
                            in (True, folderSeen))
                         (found, JobInfo_default)
                 in if \<not> found' then (False, (found', st))
                    else (let (proceed, st') = handler (PopulateJobInfo jobinfo entry) st
                          in (proceed, (found', st'))))
              (False, s)
      in (found \<and> succeeded, s'))"

definition QueryJobInfoBySourceName ::
  "Connection \<Rightarrow> string \<Rightarrow> (JobInfo, 's) handler \<Rightarrow>
   Uuid \<Rightarrow> string option \<Rightarrow> string option \<Rightarrow> JobStatus \<Rightarrow> 's \<Rightarrow> bool \<times> 's" where
  "QueryJobInfoBySourceName conn sourceName handler builderGuid jobKey platform status s =
     (let (succeeded, (found, source)) =
            QuerySourceBySourceName conn sourceName
              (\<lambda>entry (found, source). (False, (True, entry)))
              (False, SourceDatabaseEntry_default)
      in if \<not> found \<or> \<not> succeeded then (False, s)
         else
           (let (succeeded', (found', s')) =
                  QueryJobBySourceID conn (m_sourceID source)
                    (\<lambda>entry (found, st).
                       let jobinfo = JobInfo_default\<lparr>m_sourceFile := m_sourceName source\<rparr>;
                           (scan, (found', jobinfo')) =
                             QueryScanFolderBySourceID conn (m_sourceID source)
                               (\<lambda>scanFolderEntry (found, jobinfo).
                                  (False, (True,
                                     jobinfo\<lparr>m_watchFolder := m_scanFolder scanFolderEntry\<rparr>)))
                               (found, jobinfo);
                           (proceed, st') = handler (PopulateJobInfo jobinfo' entry) st
                       in (proceed, (found', st')))
                    builderGuid jobKey platform status (False, s)
            in (found' \<and> succeeded', s')))"

subsection \<open>The statements' SQL text\<close>

text \<open>
  The tables of the store, as lists of rows. The statements below are the SQL text of
  this file read on these tables: a \<^verbatim>\<open>WHERE\<close> clause is a filter, a join a nested
  selection. Keys, guids and sub ids are compared as numbers, text byte for byte (the
  table declarations, with any collation they name, are outside this file). The order
  of the rows of a join is the store's choice; it is fixed here as the order of the
  \<^verbatim>\<open>FROM\<close> clause.
\<close>

record Database =
  dbinfo :: "DatabaseInfoEntry list"
  ScanFolders :: "ScanFolderDatabaseEntry list"
  Sources :: "SourceDatabaseEntry list"
  Jobs :: "JobDatabaseEntry list"
  Products :: "ProductDatabaseEntry list"
  ProductDependencies :: "ProductDependencyDatabaseEntry list"
  LegacySubIDs :: "LegacySubIDsEntry list"
  BuilderInfo :: "BuilderInfoEntry list"

definition EXPECTED_TABLES :: "string list" where
  "EXPECTED_TABLES =
     [''BuilderInfo'', ''Files'', ''Jobs'', ''LegacySubIDs'', ''ProductDependencies'',
      ''Products'', ''ScanFolders'', ''SourceDependency'', ''Sources'', ''dbinfo'']"

definition QUERY_LEGACYSUBIDSBYPRODUCTID_STATEMENT ::
  "Database \<Rightarrow> int \<Rightarrow> LegacySubIDsEntry list" where
  "QUERY_LEGACYSUBIDSBYPRODUCTID_STATEMENT db productId =
     [L \<leftarrow> LegacySubIDs db. legacy_m_productPK L = productId]"

definition QUERY_SOURCE_BY_SOURCEID_STATEMENT :: "Database \<Rightarrow> int \<Rightarrow> SourceDatabaseEntry list" where
  "QUERY_SOURCE_BY_SOURCEID_STATEMENT db sourceid =
     [S \<leftarrow> Sources db. m_sourceID S = sourceid]"

definition QUERY_SOURCE_BY_SOURCENAME_STATEMENT ::
  "Database \<Rightarrow> string \<Rightarrow> SourceDatabaseEntry list" where
  "QUERY_SOURCE_BY_SOURCENAME_STATEMENT db sourcename =
     [S \<leftarrow> Sources db. m_sourceName S = sourcename]"

definition QUERY_JOB_BY_JOBID_STATEMENT :: "Database \<Rightarrow> int \<Rightarrow> JobDatabaseEntry list" where
  "QUERY_JOB_BY_JOBID_STATEMENT db jobid = [J \<leftarrow> Jobs db. m_jobID J = jobid]"

definition QUERY_JOB_BY_JOBKEY_STATEMENT :: "Database \<Rightarrow> string \<Rightarrow> JobDatabaseEntry list" where
  "QUERY_JOB_BY_JOBKEY_STATEMENT db jobKey = [J \<leftarrow> Jobs db. m_jobKey J = jobKey]"

definition QUERY_JOB_BY_JOBRUNKEY_STATEMENT :: "Database \<Rightarrow> nat \<Rightarrow> JobDatabaseEntry list" where
  "QUERY_JOB_BY_JOBRUNKEY_STATEMENT db jobrunkey = [J \<leftarrow> Jobs db. m_jobRunKey J = jobrunkey]"

definition QUERY_JOB_BY_SOURCEID_STATEMENT :: "Database \<Rightarrow> int \<Rightarrow> JobDatabaseEntry list" where
  "QUERY_JOB_BY_SOURCEID_STATEMENT db sourceid = [J \<leftarrow> Jobs db. m_sourcePK J = sourceid]"

definition QUERY_JOB_BY_SOURCEID_PLATFORM_STATEMENT ::
  "Database \<Rightarrow> int \<Rightarrow> string \<Rightarrow> JobDatabaseEntry list" where
  "QUERY_JOB_BY_SOURCEID_PLATFORM_STATEMENT db sourceid platform =
     [J \<leftarrow> Jobs db. m_sourcePK J = sourceid \<and> m_platform J = platform]"

text \<open>
  The combined statements. Each starts with a \<^verbatim>\<open>LEFT JOIN\<close> whose right side a
  later \<^verbatim>\<open>INNER JOIN\<close> condition reads, so a row that the left join pads with NULL
  is dropped by that inner join: the four tables are joined on their keys. The row has
  no column for the legacy sub ids.
\<close>

definition combinedRow ::
  "ScanFolderDatabaseEntry \<Rightarrow> SourceDatabaseEntry \<Rightarrow> JobDatabaseEntry \<Rightarrow>
   ProductDatabaseEntry \<Rightarrow> CombinedDatabaseEntry" where
  "combinedRow F S J P =
     \<lparr>scanFolderColumns = F, sourceColumns = S, jobColumns = J, productColumns = P,
      m_legacySubIDs = []\<rparr>"

definition QUERY_COMBINED_BY_SOURCEID_STATEMENT ::
  "Database \<Rightarrow> int \<Rightarrow> CombinedDatabaseEntry list" where
  "QUERY_COMBINED_BY_SOURCEID_STATEMENT db sourceid =
     [combinedRow F S J P.
        S \<leftarrow> Sources db,
        J \<leftarrow> Jobs db, m_sourceID S = m_sourcePK J,
        F \<leftarrow> ScanFolders db, m_scanFolderID F = m_scanFolderPK S,
        P \<leftarrow> Products db, m_jobID J = m_jobPK P,
        m_sourceID S = sourceid]"

definition QUERY_COMBINED_BY_SOURCEID_PLATFORM_STATEMENT ::
  "Database \<Rightarrow> int \<Rightarrow> string \<Rightarrow> CombinedDatabaseEntry list" where
  "QUERY_COMBINED_BY_SOURCEID_PLATFORM_STATEMENT db sourceid platform =
     [combinedRow F S J P.
        S \<leftarrow> Sources db,
        J \<leftarrow> Jobs db, m_sourceID S = m_sourcePK J,
        F \<leftarrow> ScanFolders db, m_scanFolderID F = m_scanFolderPK S,
        P \<leftarrow> Products db, m_jobID J = m_jobPK P,
        m_sourceID S = sourceid \<and> m_platform J = platform]"

definition QUERY_COMBINED_BY_JOBID_STATEMENT ::
  "Database \<Rightarrow> int \<Rightarrow> CombinedDatabaseEntry list" where
  "QUERY_COMBINED_BY_JOBID_STATEMENT db jobid =
     [combinedRow F S J P.
        J \<leftarrow> Jobs db,
        S \<leftarrow> Sources db, m_sourceID S = m_sourcePK J,
        F \<leftarrow> ScanFolders db, m_scanFolderID F = m_scanFolderPK S,
        P \<leftarrow> Products db, m_jobID J = m_jobPK P,
        m_jobID J = jobid]"

definition QUERY_COMBINED_BY_JOBID_PLATFORM_STATEMENT ::
  "Database \<Rightarrow> int \<Rightarrow> string \<Rightarrow> CombinedDatabaseEntry list" where
  "QUERY_COMBINED_BY_JOBID_PLATFORM_STATEMENT db jobid platform =
     [combinedRow F S J P.
        J \<leftarrow> Jobs db,
        S \<leftarrow> Sources db, m_sourceID S = m_sourcePK J,
        F \<leftarrow> ScanFolders db, m_scanFolderID F = m_scanFolderPK S,
        P \<leftarrow> Products db, m_jobID J = m_jobPK P,
        m_jobID J = jobid \<and> m_platform J = platform]"

definition QUERY_COMBINED_BY_PRODUCTID_STATEMENT ::
  "Database \<Rightarrow> int \<Rightarrow> CombinedDatabaseEntry list" where
  "QUERY_COMBINED_BY_PRODUCTID_STATEMENT db productid =
     [combinedRow F S J P.
        P \<leftarrow> Products db,
        J \<leftarrow> Jobs db, m_jobID J = m_jobPK P,
        S \<leftarrow> Sources db, m_sourceID S = m_sourcePK J,
        F \<leftarrow> ScanFolders db, m_scanFolderID F = m_scanFolderPK S,
        m_productID P = productid]"

definition QUERY_COMBINED_BY_PRODUCTID_PLATFORM_STATEMENT ::
  "Database \<Rightarrow> int \<Rightarrow> string \<Rightarrow> CombinedDatabaseEntry list" where
  "QUERY_COMBINED_BY_PRODUCTID_PLATFORM_STATEMENT db productid platform =
     [combinedRow F S J P.
        P \<leftarrow> Products db,
        J \<leftarrow> Jobs db, m_jobID J = m_jobPK P,
        S \<leftarrow> Sources db, m_sourceID S = m_sourcePK J,
        F \<leftarrow> ScanFolders db, m_scanFolderID F = m_scanFolderPK S,
        m_productID P = productid \<and> m_platform J = platform]"

definition GET_UNRESOLVED_PRODUCT_DEPENDENCIES_STATEMENT ::
  "Database \<Rightarrow> ProductDependencyDatabaseEntry list" where
  "GET_UNRESOLVED_PRODUCT_DEPENDENCIES_STATEMENT db =
     [D \<leftarrow> ProductDependencies db. m_unresolvedPath D \<noteq> []]"

subsection \<open>The recursive statement of QueryAllProductDependencies\<close>

text \<open>
  \<^verbatim>\<open>QUERY_ALL_PRODUCTDEPENDENCIES_STATEMENT\<close> is a recursive common table expression,
  \<^verbatim>\<open>WITH RECURSIVE allProductDeps(...) AS (initial UNION recursive LIMIT -1 OFFSET 1)\<close>.
  The initial select is the product with the given id.
\<close>

definition allProductDeps_initial :: "Database \<Rightarrow> int \<Rightarrow> ProductDatabaseEntry list" where
  "allProductDeps_initial db productid = [P \<leftarrow> Products db. m_productID P = productid]"

text \<open>
  The recursive select, for one row \<open>current\<close> of \<^verbatim>\<open>allProductDeps\<close>: the products
  \<open>P\<close> whose job's source has the guid, and which have the sub id, of a dependency
  that \<open>current\<close> owns. Its outer joins select as inner joins, since the \<^verbatim>\<open>WHERE\<close>
  clause reads the dependency row.
\<close>

definition allProductDeps_recursive ::
  "Database \<Rightarrow> ProductDatabaseEntry \<Rightarrow> ProductDatabaseEntry list" where
  "allProductDeps_recursive db current =
     [P. P \<leftarrow> Products db,
         J \<leftarrow> Jobs db, m_jobID J = m_jobPK P,
         S \<leftarrow> Sources db, m_sourceID S = m_sourcePK J,
         D \<leftarrow> ProductDependencies db,
         m_sourceGuid S = m_dependencySourceGuid D \<and> m_subID P = m_dependencySubID D,
         m_productPK D = m_productID current]"

text \<open>
  The store evaluates such a statement with a queue: the rows of the initial select
  are put on the queue; then, while the queue is not empty, one row is taken off, it
  becomes a row of the result unless the \<^verbatim>\<open>OFFSET\<close> still skips it, and the recursive
  select is run for it, its rows going to the queue. Under \<^verbatim>\<open>UNION\<close> a row goes to
  the queue only if no identical row was put there before (\<open>added\<close>), whether or not
  that row has left the queue since.
\<close>

fun enqueue :: "'a list \<Rightarrow> 'a list \<times> 'a list \<Rightarrow> 'a list \<times> 'a list" where
  "enqueue [] (queue, added) = (queue, added)"
| "enqueue (row # rows) (queue, added) =
     (if row \<in> set added then enqueue rows (queue, added)
      else enqueue rows (queue @ [row], added @ [row]))"

lemma enqueue_measure:
  "finite U \<Longrightarrow> set rows \<subseteq> U \<Longrightarrow> enqueue rows (queue, added) = (queue', added') \<Longrightarrow>
   card (U - set added') + length queue' = card (U - set added) + length queue"
proof (induction rows arbitrary: queue added)
  case Nil
  then show ?case by simp
next
  case (Cons row rows)
  show ?case
  proof (cases "row \<in> set added")
    case True
    with Cons show ?thesis by simp
  next
    case False
    from Cons.prems False have e: "enqueue rows (queue @ [row], added @ [row]) = (queue', added')"
      by simp
    from Cons.prems have sub: "set rows \<subseteq> U" and inU: "row \<in> U" by auto
    have step: "card (U - set added') + length queue' =
       card (U - set (added @ [row])) + length (queue @ [row])"
      using Cons.IH [OF Cons.prems(1) sub e] .
    have "U - set (added @ [row]) = (U - set added) - {row}" by auto
    moreover have "row \<in> U - set added" using inU False by simp
    moreover have "finite (U - set added)" using Cons.prems(1) by simp
    ultimately have "card (U - set (added @ [row])) + 1 = card (U - set added)"
      using card.remove [of "U - set added" row] by simp
    with step show ?thesis by simp
  qed
qed

lemma allProductDeps_recursive_subset:
  "set (allProductDeps_recursive db current) \<subseteq> set (Products db)"
  by (auto simp: allProductDeps_recursive_def)

text \<open>
  The loop ends because every row it puts on the queue is a product that was not put
  there before.
\<close>

function allProductDeps_rows ::
  "Database \<Rightarrow> nat \<Rightarrow> ProductDatabaseEntry list \<Rightarrow> ProductDatabaseEntry list \<Rightarrow>
   ProductDatabaseEntry list" where
  "allProductDeps_rows db offset [] added = []"
| "allProductDeps_rows db offset (current # queue) added =
     (let (queue', added') = enqueue (allProductDeps_recursive db current) (queue, added)
      in (if 0 < offset then [] else [current])
         @ allProductDeps_rows db (offset - 1) queue' added')"
  by pat_completeness auto
termination
proof (relation "measure (\<lambda>(db, offset, queue, added).
          card (set (Products db) - set added) + length queue)")
  show "wf (measure (\<lambda>(db, offset, queue, added).
          card (set (Products db) - set added) + length queue))"
    by simp
next
  fix db :: Database and offset :: nat and current queue added x queue' added'
  assume "x = enqueue (allProductDeps_recursive db current) (queue, added)"
    and "(queue', added') = x"
  then have e: "enqueue (allProductDeps_recursive db current) (queue, added) = (queue', added')"
    by simp
  have "card (set (Products db) - set added') + length queue' =
        card (set (Products db) - set added) + length queue"
    by (rule enqueue_measure [OF _ allProductDeps_recursive_subset e]) simp
  then show "((db, offset - 1, queue', added'), (db, offset, current # queue, added))
     \<in> measure (\<lambda>(db, offset, queue, added).
          card (set (Products db) - set added) + length queue)"
    by simp
qed

definition QUERY_ALL_PRODUCTDEPENDENCIES_STATEMENT ::
  "Database \<Rightarrow> int \<Rightarrow> ProductDatabaseEntry list" where
  "QUERY_ALL_PRODUCTDEPENDENCIES_STATEMENT db productid =
     (let (queue, added) = enqueue (allProductDeps_initial db productid) ([], [])
      in allProductDeps_rows db 1 queue added)"

subsection \<open>The dependency graph, in the specification's words\<close>

text \<open>
  The specification speaks of the graph whose nodes are products and whose edges are
  the rows of \<^verbatim>\<open>ProductDependencies\<close>: a dependency row owned by the product \<open>A\<close>
  names a source guid and a sub id, and leads to every product \<open>B\<close> that has this sub
  id and was made by a job of the source with this guid. This definition follows those
  words, not the SQL text; the properties compare it with the recursive statement.
\<close>

definition dependsOn :: "Database \<Rightarrow> ProductDatabaseEntry \<Rightarrow> ProductDatabaseEntry \<Rightarrow> bool" where
  "dependsOn db A B =
     (B \<in> set (Products db)
      \<and> (\<exists>D \<in> set (ProductDependencies db). m_productPK D = m_productID A
           \<and> (\<exists>S \<in> set (Sources db). m_sourceGuid S = m_dependencySourceGuid D
                \<and> (\<exists>J \<in> set (Jobs db). m_sourcePK J = m_sourceID S
                     \<and> m_jobPK B = m_jobID J \<and> m_subID B = m_dependencySubID D))))"

text \<open>The products that some product of \<open>X\<close> leads to in zero or more steps.\<close>

definition reachable :: "Database \<Rightarrow> ProductDatabaseEntry set \<Rightarrow> ProductDatabaseEntry set" where
  "reachable db X = {B. \<exists>A \<in> X. (dependsOn db)\<^sup>*\<^sup>* A B}"

subsection \<open>A healthy store\<close>

text \<open>
  The connection to a store that holds the tables \<open>db\<close> and answers without error:
  every statement binds, yields the rows its SQL text selects, every column the
  statement has can be fetched, and the step after the last row is \<^verbatim>\<open>SqlDone\<close>.
  The rows of \<^verbatim>\<open>allProductDeps\<close> have the product columns only.
\<close>

definition answered :: "'r list \<Rightarrow> 'r Statement option" where
  "answered rows = Some (Statement (map Some rows) Done)"

definition productColumnsOnly :: "ProductDatabaseEntry \<Rightarrow> ProductRow" where
  "productColumnsOnly P =
     \<lparr>productFetch = Some P, jobKeyFetch = None, builderGuidFetch = None, statusFetch = None\<rparr>"

definition connect :: "Database \<Rightarrow> Connection" where
  "connect db =
     \<lparr>s_queryDatabaseinfoTable = answered (dbinfo db),
      s_queryBuilderInfoTable = answered (BuilderInfo db),
      s_queryLegacysubidsbyproductid =
        (\<lambda>productId. answered (QUERY_LEGACYSUBIDSBYPRODUCTID_STATEMENT db productId)),
      s_querySourceBySourceid =
        (\<lambda>sourceid. answered (QUERY_SOURCE_BY_SOURCEID_STATEMENT db sourceid)),
      s_querySourceBySourcename =
        (\<lambda>sourcename. answered (QUERY_SOURCE_BY_SOURCENAME_STATEMENT db sourcename)),
      s_queryJobByJobid = (\<lambda>jobid. answered (QUERY_JOB_BY_JOBID_STATEMENT db jobid)),
      s_queryJobByJobkey = (\<lambda>jobKey. answered (QUERY_JOB_BY_JOBKEY_STATEMENT db jobKey)),
      s_queryJobByJobrunkey =
        (\<lambda>jobrunkey. answered (QUERY_JOB_BY_JOBRUNKEY_STATEMENT db jobrunkey)),
      s_queryJobBySourceid =
        (\<lambda>sourceid. answered (QUERY_JOB_BY_SOURCEID_STATEMENT db sourceid)),
      s_queryJobBySourceidPlatform =
        (\<lambda>sourceid platform.
           answered (QUERY_JOB_BY_SOURCEID_PLATFORM_STATEMENT db sourceid platform)),
      s_queryCombinedBySourceid =
        (\<lambda>sourceid. answered (QUERY_COMBINED_BY_SOURCEID_STATEMENT db sourceid)),
      s_queryCombinedBySourceidPlatform =
        (\<lambda>sourceid platform.
           answered (QUERY_COMBINED_BY_SOURCEID_PLATFORM_STATEMENT db sourceid platform)),
      s_queryCombinedByJobid =
        (\<lambda>jobid. answered (QUERY_COMBINED_BY_JOBID_STATEMENT db jobid)),
      s_queryCombinedByJobidPlatform =
        (\<lambda>jobid platform.
           answered (QUERY_COMBINED_BY_JOBID_PLATFORM_STATEMENT db jobid platform)),
      s_queryCombinedByProductid =
        (\<lambda>productid. answered (QUERY_COMBINED_BY_PRODUCTID_STATEMENT db productid)),
      s_queryCombinedByProductidPlatform =
        (\<lambda>productid platform.
           answered (QUERY_COMBINED_BY_PRODUCTID_PLATFORM_STATEMENT db productid platform)),
      s_queryAllProductdependencies =
        (\<lambda>productid.
           answered (map productColumnsOnly (QUERY_ALL_PRODUCTDEPENDENCIES_STATEMENT db productid))),
      s_queryUnresolvedProductDependencies =
        answered (GET_UNRESOLVED_PRODUCT_DEPENDENCIES_STATEMENT db),
      DoesTableExist = (\<lambda>tableName. tableName \<in> set EXPECTED_TABLES),
      IsOpen = True\<rparr>"

subsection \<open>Opening and closing\<close>

text \<open>
  What \<^verbatim>\<open>OpenDatabase\<close> consults outside this file: the location the asset
  database bus answers, the file system (\<^verbatim>\<open>AZ::IO::SystemFile\<close>) and the store's
  \<^verbatim>\<open>SQLite::Connection::Open\<close>, which gives an open connection or fails. \<open>calls\<close>
  keeps the calls that change something outside, in order.
\<close>

datatype Call = CreateDir string | OpenStore string bool | CloseStore

record World =
  GetAssetDatabaseLocation :: string
  Exists :: "string \<Rightarrow> bool"
  IsWritable :: "string \<Rightarrow> bool"
  Open :: "string \<Rightarrow> bool \<Rightarrow> Connection option"
  calls :: "Call list"

record AssetDatabaseConnection =
  m_databaseConnection :: "Connection option"
  m_validatedTables :: "string set"

text \<open>The constructor: no connection, nothing validated.\<close>

definition AssetDatabaseConnection_new :: AssetDatabaseConnection where
  "AssetDatabaseConnection_new = \<lparr>m_databaseConnection = None, m_validatedTables = {}\<rparr>"

definition CloseDatabase ::
  "AssetDatabaseConnection \<Rightarrow> World \<Rightarrow> AssetDatabaseConnection \<times> World" where
  "CloseDatabase this world =
     (case m_databaseConnection this of
        Some connection \<Rightarrow>
          (this\<lparr>m_databaseConnection := None, m_validatedTables := {}\<rparr>,
           world\<lparr>calls := calls world @ [CloseStore]\<rparr>)
      | None \<Rightarrow> (this\<lparr>m_validatedTables := {}\<rparr>, world))"

definition GetAssetDatabaseFilePath :: "World \<Rightarrow> string" where
  "GetAssetDatabaseFilePath world =
     (if GetAssetDatabaseLocation world = [] then ''assetdb.sqlite''
      else GetAssetDatabaseLocation world)"

text \<open>
  \<^verbatim>\<open>QueryDatabaseVersion\<close>: the handler keeps the version of every row it sees, so
  the last row wins. The local \<^verbatim>\<open>dbVersion\<close> is declared without a value:
  \<open>indeterminate\<close> is what it holds when no row was seen.
\<close>

definition QueryDatabaseVersion :: "Connection \<Rightarrow> DatabaseVersion \<Rightarrow> DatabaseVersion" where
  "QueryDatabaseVersion conn indeterminate =
     (let (res, dbVersion) =
            QueryDatabaseInfoTable conn (\<lambda>entry dbVersion. (True, m_version entry)) indeterminate
      in if res then dbVersion else DatabaseDoesNotExist)"

definition ValidateDatabaseTable ::
  "string \<Rightarrow> AssetDatabaseConnection \<Rightarrow> bool \<times> AssetDatabaseConnection" where
  "ValidateDatabaseTable tableName this =
     (if tableName \<in> m_validatedTables this then (True, this)
      else case m_databaseConnection this of
             None \<Rightarrow> (False, this)
           | Some connection \<Rightarrow>
               if \<not> IsOpen connection then (False, this)
               else if \<not> DoesTableExist connection tableName then (False, this)
               else (True, this\<lparr>m_validatedTables := insert tableName (m_validatedTables this)\<rparr>))"

text \<open>The loop of \<^verbatim>\<open>PostOpenDatabase\<close> over the expected tables.\<close>

fun PostOpenDatabase_tables ::
  "string list \<Rightarrow> AssetDatabaseConnection \<Rightarrow> bool \<times> AssetDatabaseConnection" where
  "PostOpenDatabase_tables [] this = (True, this)"
| "PostOpenDatabase_tables (tableName # tables) this =
     (let (valid, this') = ValidateDatabaseTable tableName this in
      if \<not> valid then (False, this')
      else PostOpenDatabase_tables tables this')"

text \<open>
  \<^verbatim>\<open>PostOpenDatabase\<close> runs on the connection that \<^verbatim>\<open>OpenDatabase\<close> has just
  opened and stored in \<^verbatim>\<open>m_databaseConnection\<close>. \<^verbatim>\<open>CurrentDatabaseVersion()\<close>
  is declared outside this file: it is the parameter of that name.
\<close>

definition PostOpenDatabase ::
  "DatabaseVersion \<Rightarrow> DatabaseVersion \<Rightarrow> Connection \<Rightarrow> AssetDatabaseConnection \<Rightarrow>
   bool \<times> AssetDatabaseConnection" where
  "PostOpenDatabase CurrentDatabaseVersion indeterminate connection this =
     (if QueryDatabaseVersion connection indeterminate \<noteq> CurrentDatabaseVersion
      then (False, this)
      else PostOpenDatabase_tables EXPECTED_TABLES this)"

text \<open>
  \<^verbatim>\<open>OpenDatabase\<close>. \<^verbatim>\<open>IsReadOnly()\<close> is a method of the class that a derived
  class decides, and \<^verbatim>\<open>StringFunc::Path::StripFullName\<close> a helper outside this file:
  both are parameters. The assertion "Already open!" is the caller's obligation.
  \<^verbatim>\<open>CreateStatements\<close> prepares the statements, which a \<open>Connection\<close> here
  already answers for.
\<close>

definition OpenDatabase ::
  "(string \<Rightarrow> string) \<Rightarrow> bool \<Rightarrow> DatabaseVersion \<Rightarrow> DatabaseVersion \<Rightarrow>
   AssetDatabaseConnection \<Rightarrow> World \<Rightarrow> bool \<times> AssetDatabaseConnection \<times> World" where
  "OpenDatabase StripFullName IsReadOnly CurrentDatabaseVersion indeterminate this world =
     (let assetDatabaseLocation = GetAssetDatabaseFilePath world;
          parentFolder = StripFullName assetDatabaseLocation;
          world1 = (if parentFolder \<noteq> []
                    then world\<lparr>calls := calls world @ [CreateDir parentFolder]\<rparr>
                    else world)
      in if IsReadOnly \<and> \<not> Exists world1 assetDatabaseLocation then (False, this, world1)
         else if \<not> IsReadOnly \<and> Exists world1 assetDatabaseLocation
                 \<and> \<not> IsWritable world1 assetDatabaseLocation
         then (False, this, world1)
         else
           (let world2 = world1\<lparr>calls := calls world1
                                   @ [OpenStore assetDatabaseLocation IsReadOnly]\<rparr>
            in case Open world2 assetDatabaseLocation IsReadOnly of
                 None \<Rightarrow> (False, this\<lparr>m_databaseConnection := None\<rparr>, world2)
               | Some connection \<Rightarrow>
                   (let this1 = this\<lparr>m_databaseConnection := Some connection,
                                     m_validatedTables := {}\<rparr>;
                        (valid, this2) =
                          PostOpenDatabase CurrentDatabaseVersion indeterminate connection this1
                    in if \<not> valid
                       then (let (this3, world3) = CloseDatabase this2 world2
                             in (False, this3, world3))
                       else (True, this2, world2))))"

text \<open>The calls that open the store.\<close>

fun isOpenStore :: "Call \<Rightarrow> bool" where
  "isOpenStore (OpenStore location readOnly) = True"
| "isOpenStore call = False"

subsection \<open>Search terms for LIKE\<close>

datatype LikeType = Raw | StartsWith | EndsWith | Matches

text \<open>
  Modelled from the spec: the three string helpers of \<^verbatim>\<open>StringFunc\<close> are declared
  outside this file. \<^verbatim>\<open>Replace\<close> is called here with a one-character text to find
  (\<^verbatim>\<open>"%"\<close>, then \<^verbatim>\<open>"_"\<close>) and puts the replacement text in the place of each of its
  occurrences; \<^verbatim>\<open>Append\<close> and \<^verbatim>\<open>Prepend\<close> put a text after and before the string.
\<close>

definition Replace :: "string \<Rightarrow> char \<Rightarrow> string \<Rightarrow> string" where
  "Replace inout replaceA withB =
     concat (map (\<lambda>c. if c = replaceA then withB else [c]) inout)"

definition Append :: "string \<Rightarrow> string \<Rightarrow> string" where
  "Append inout s = inout @ s"

definition Prepend :: "string \<Rightarrow> string \<Rightarrow> string" where
  "Prepend inout s = s @ inout"

definition GetLikeActualSearchTerm :: "string \<Rightarrow> LikeType \<Rightarrow> string" where
  "GetLikeActualSearchTerm likeString likeType =
     (if likeType = StartsWith
      then Append (Replace (Replace likeString (CHR ''%'') ''|%'') (CHR ''_'') ''|_'') ''%''
      else if likeType = EndsWith
      then Prepend (Replace (Replace likeString (CHR ''%'') ''|%'') (CHR ''_'') ''|_'') ''%''
      else if likeType = Matches
      then Append
             (Prepend (Replace (Replace likeString (CHR ''%'') ''|%'') (CHR ''_'') ''|_'') ''%'')
             ''%''
      else likeString)"

text \<open>
  Modelled from the spec: the store's operator \<^verbatim>\<open>str LIKE pattern ESCAPE escape\<close>, which
  the statements \<^verbatim>\<open>... LIKE :sourcename ESCAPE '|'\<close> use. In a pattern \<^verbatim>\<open>%\<close> stands for
  any run of characters, \<^verbatim>\<open>_\<close> for any one character, the escape character makes the
  character after it stand for itself (a pattern that ends in the escape character
  matches nothing), and every other character stands for itself. How the store compares
  two characters that stand for themselves (exactly, or ignoring the case of letters) is
  the parameter \<open>same\<close>.
\<close>

fun LIKE :: "(char \<Rightarrow> char \<Rightarrow> bool) \<Rightarrow> char \<Rightarrow> string \<Rightarrow> string \<Rightarrow> bool" where
  "LIKE same escape [] str = (str = [])"
| "LIKE same escape (c # pattern) [] = (c = CHR ''%'' \<and> LIKE same escape pattern [])"
| "LIKE same escape (c # pattern) (t # str) =
     (if c = CHR ''%''
      then LIKE same escape pattern (t # str) \<or> LIKE same escape (c # pattern) str
      else if c = escape
      then (case pattern of
              [] \<Rightarrow> False
            | escaped # pattern' \<Rightarrow> same escaped t \<and> LIKE same escape pattern' str)
      else if c = CHR ''_'' then LIKE same escape pattern str
      else same c t \<and> LIKE same escape pattern str)"

text \<open>The part of the search term that the three modes share: the literal after both
  replacements.\<close>

definition escapeWildcards :: "string \<Rightarrow> string" where
  "escapeWildcards literal =
     Replace (Replace literal (CHR ''%'') ''|%'') (CHR ''_'') ''|_''"

subsection \<open>Callers\<close>

text \<open>
  Two kinds of caller: a handler that does \<open>f\<close> with the entry and stops the
  iteration, and one that does \<open>f\<close> and asks for the next row. Whatever a handler does
  on a call, it is one of the two.
\<close>

definition stopWith :: "('r \<Rightarrow> 's \<Rightarrow> 's) \<Rightarrow> ('r, 's) handler" where
  "stopWith f entry s = (False, f entry s)"

definition keepWith :: "('r \<Rightarrow> 's \<Rightarrow> 's) \<Rightarrow> ('r, 's) handler" where
  "keepWith f entry s = (True, f entry s)"

text \<open>
  What a call made with a recording handler, started with nothing recorded, left
  behind: \<open>deliveredOnce\<close> when the handler saw no entry, or saw exactly one and the
  call returned true; \<open>falseWhenEmpty\<close> when a call that showed the handler no entry
  returned false.
\<close>

definition deliveredOnce :: "bool \<times> 'r list \<times> 's \<Rightarrow> bool" where
  "deliveredOnce result =
     (case result of (ok, delivered, s) \<Rightarrow> delivered = [] \<or> (length delivered = 1 \<and> ok))"

definition falseWhenEmpty :: "bool \<times> 'r list \<times> 's \<Rightarrow> bool" where
  "falseWhenEmpty result =
     (case result of (ok, delivered, s) \<Rightarrow> delivered = [] \<longrightarrow> \<not> ok)"

text \<open>
  \<open>fetches\<close>: the row has every column that \<^verbatim>\<open>GetProductResult\<close> reads under the
  given criteria.
\<close>

definition fetches :: "Uuid \<Rightarrow> string option \<Rightarrow> JobStatus \<Rightarrow> ProductRow \<Rightarrow> bool" where
  "fetches builderGuid jobKey status row =
     (productFetch row \<noteq> None
      \<and> (jobKey = None \<or> jobKeyFetch row \<noteq> None)
      \<and> (IsNull builderGuid \<or> builderGuidFetch row \<noteq> None)
      \<and> (status = Any \<or> statusFetch row \<noteq> None))"

definition delivered :: "bool \<times> 'r list \<times> 's \<Rightarrow> 'r list" where
  "delivered result = fst (snd result)"

definition observe :: "'r \<Rightarrow> unit \<Rightarrow> unit" where
  "observe entry u = u"

subsection \<open>Example stores\<close>

text \<open>
  Two scan folders and four sources. The products of the sources a, b and c depend on
  one another in a cycle (a on b, b on c, c on a), and the product of c has one more
  dependency that is still unresolved. The job of d failed and has no product. The
  product with id 1 belongs to the source with id 2, and the other way round.
\<close>

definition exampleJob :: "int \<Rightarrow> int \<Rightarrow> JobStatus \<Rightarrow> JobDatabaseEntry" where
  "exampleJob jobID sourcePK status =
     \<lparr>m_jobID = jobID, m_sourcePK = sourcePK, m_jobKey = ''tiff'', m_fingerprint = 7,
      m_platform = ''pc'', m_builderGuid = 99, m_status = status, m_jobRunKey = 5,
      m_firstFailLogTime = 0, m_firstFailLogFile = [], m_lastFailLogTime = 0,
      m_lastFailLogFile = [], m_lastLogTime = 0, m_lastLogFile = []\<rparr>"

definition exampleDependency ::
  "int \<Rightarrow> int \<Rightarrow> Uuid \<Rightarrow> string \<Rightarrow> ProductDependencyDatabaseEntry" where
  "exampleDependency dependencyID productPK sourceGuid unresolvedPath =
     \<lparr>m_productDependencyID = dependencyID, m_productPK = productPK,
      m_dependencySourceGuid = sourceGuid, m_dependencySubID = 0, m_dependencyFlags = 0,
      dependency_m_platform = ''pc'', m_unresolvedPath = unresolvedPath, m_dependencyType = 0\<rparr>"

definition exampleProduct :: "int \<Rightarrow> int \<Rightarrow> string \<Rightarrow> ProductDatabaseEntry" where
  "exampleProduct productID jobPK productName =
     \<lparr>m_productID = productID, m_jobPK = jobPK, m_productName = productName, m_subID = 0,
      m_assetType = 50, m_legacyGuid = 0\<rparr>"

definition exampleFolder :: "int \<Rightarrow> string \<Rightarrow> ScanFolderDatabaseEntry" where
  "exampleFolder scanFolderID name =
     \<lparr>m_scanFolderID = scanFolderID, m_scanFolder = ''/dev/'' @ name, m_displayName = name,
      m_portableKey = name, m_outputPrefix = [], m_isRoot = 0\<rparr>"

definition exampleSource :: "int \<Rightarrow> int \<Rightarrow> string \<Rightarrow> Uuid \<Rightarrow> SourceDatabaseEntry" where
  "exampleSource sourceID scanFolderPK sourceName sourceGuid =
     \<lparr>m_sourceID = sourceID, m_scanFolderPK = scanFolderPK, m_sourceName = sourceName,
      m_sourceGuid = sourceGuid, m_analysisFingerprint = []\<rparr>"

definition exampleDatabase :: Database where
  "exampleDatabase =
     \<lparr>dbinfo = [\<lparr>m_rowID = 1, m_version = Version 20\<rparr>],
      ScanFolders = [exampleFolder 1 ''game'', exampleFolder 2 ''engine''],
      Sources =
        [exampleSource 1 1 ''a.tif'' 11, exampleSource 2 2 ''b.tif'' 12,
         exampleSource 3 1 ''c.tif'' 13, exampleSource 4 1 ''d.tif'' 14],
      Jobs = [exampleJob 1 1 Completed, exampleJob 2 2 Completed, exampleJob 3 3 Completed,
              exampleJob 4 4 Failed],
      Products =
        [exampleProduct 1 2 ''pc/b.dds'', exampleProduct 2 1 ''pc/a.dds'',
         exampleProduct 3 3 ''pc/c.dds''],
      ProductDependencies =
        [exampleDependency 1 2 12 [], exampleDependency 2 1 13 [],
         exampleDependency 3 3 11 [], exampleDependency 4 3 0 ''textures/missing.dds''],
      LegacySubIDs = [],
      BuilderInfo = []\<rparr>"

definition emptyDatabase :: Database where
  "emptyDatabase =
     \<lparr>dbinfo = [\<lparr>m_rowID = 1, m_version = Version 20\<rparr>], ScanFolders = [], Sources = [],
      Jobs = [], Products = [], ProductDependencies = [], LegacySubIDs = [], BuilderInfo = []\<rparr>"

text \<open>
  A world for the example store: the database file exists and is writable, and opening
  it gives the healthy connection. \<open>noFolder\<close> strips a path to nothing, so no
  directory is created.
\<close>

definition noFolder :: "string \<Rightarrow> string" where
  "noFolder path = []"

definition exampleWorld :: World where
  "exampleWorld =
     \<lparr>GetAssetDatabaseLocation = ''/cache/assetdb.sqlite'',
      Exists = (\<lambda>path. path = ''/cache/assetdb.sqlite''),
      IsWritable = (\<lambda>path. True),
      Open = (\<lambda>path readOnly.
                if path = ''/cache/assetdb.sqlite'' then Some (connect exampleDatabase) else None),
      calls = []\<rparr>"

text \<open>
  The two open-time preconditions: read-only and the file is missing, or read-write
  and the file is there but not writable.
\<close>

definition violatesPrecondition :: "bool \<Rightarrow> World \<Rightarrow> bool" where
  "violatesPrecondition IsReadOnly world =
     ((IsReadOnly \<and> \<not> Exists world (GetAssetDatabaseFilePath world))
      \<or> (\<not> IsReadOnly \<and> Exists world (GetAssetDatabaseFilePath world)
          \<and> \<not> IsWritable world (GetAssetDatabaseFilePath world)))"

section \<open>Properties\<close>

subsection \<open>The row loops, case by case\<close>

lemma GetProductResult_while_Some:
  obtains
    (fail) "GetProductResult_while H g k st (Some r # rows) e v saved t = (False, t)"
  | (skip) saved' where
      "GetProductResult_while H g k st (Some r # rows) e v saved t =
       GetProductResult_while H g k st rows e True saved' t"
  | (deliver) product saved' where
      "GetProductResult_while H g k st (Some r # rows) e v saved t =
       (let (proceed, t') = H product t in
        if proceed then GetProductResult_while H g k st rows e True saved' t' else (True, t'))"
proof -
  obtain sk sg ss where saved: "saved = (sk, sg, ss)" by (cases saved)
  show ?thesis
  proof (cases "(k \<noteq> None \<and> jobKeyFetch r = None) \<or> (\<not> IsNull g \<and> builderGuidFetch r = None)
         \<or> (st \<noteq> Any \<and> statusFetch r = None)")
    case True
    then have "GetProductResult_while H g k st (Some r # rows) e v saved t = (False, t)"
      by (simp only: GetProductResult_while.simps if_True)
    then show ?thesis by (rule fail)
  next
    case False
    define sk' where "sk' = (if k \<noteq> None
                then (case jobKeyFetch r of Some k \<Rightarrow> k | None \<Rightarrow> sk) else sk)"
    define sg' where "sg' = (if \<not> IsNull g
                then (case builderGuidFetch r of Some g \<Rightarrow> g | None \<Rightarrow> sg) else sg)"
    define ss' where "ss' = (if st \<noteq> Any
                then (case statusFetch r of Some t \<Rightarrow> t | None \<Rightarrow> ss) else ss)"
    have unfold: "GetProductResult_while H g k st (Some r # rows) e v saved t =
       (if ResultMatchesJobCriteria k g st sk' sg' ss'
        then (case productFetch r of
                None \<Rightarrow> (False, t)
              | Some product \<Rightarrow>
                  (let (proceed, t') = H product t in
                   if proceed then GetProductResult_while H g k st rows e True (sk', sg', ss') t'
                   else (True, t')))
        else GetProductResult_while H g k st rows e True (sk', sg', ss') t)"
      using False unfolding saved sk'_def sg'_def ss'_def
      by (simp only: GetProductResult_while.simps if_False Let_def prod.case)
    show ?thesis
    proof (cases "ResultMatchesJobCriteria k g st sk' sg' ss'")
      case False
      with unfold show ?thesis by (intro skip [of "(sk', sg', ss')"]) simp
    next
      case True
      show ?thesis
      proof (cases "productFetch r")
        case None
        with True unfold show ?thesis by (intro fail) simp
      next
        case (Some product)
        with True unfold show ?thesis by (intro deliver [of product "(sk', sg', ss')"]) simp
      qed
    qed
  qed
qed

lemma GetResult_while_post:
  assumes step: "\<And>entry t. P t \<Longrightarrow> (case H entry t of (proceed, t') \<Rightarrow> if proceed then P t' else Q t')"
    and start: "P t"
  shows "case GetResult_while H rows e v t of (ok, t') \<Rightarrow> P t' \<or> (ok \<and> Q t')"
  using start
proof (induction rows arbitrary: v t)
  case Nil
  then show ?case by simp
next
  case (Cons row rows)
  show ?case
  proof (cases row)
    case None
    with Cons.prems show ?thesis by simp
  next
    case (Some entry)
    obtain proceed t' where h: "H entry t = (proceed, t')" by (cases "H entry t")
    show ?thesis
    proof (cases proceed)
      case True
      then have "P t'" using step [OF Cons.prems, of entry] h by simp
      from Cons.IH [OF this] show ?thesis using Some h True by simp
    next
      case False
      then have "Q t'" using step [OF Cons.prems, of entry] h by simp
      then show ?thesis using Some h False by simp
    qed
  qed
qed

lemma GetJobResult_while_post:
  assumes step: "\<And>entry t. P t \<Longrightarrow> (case H entry t of (proceed, t') \<Rightarrow> if proceed then P t' else Q t')"
    and start: "P t"
  shows "case GetJobResult_while H g k st rows e v t of (ok, t') \<Rightarrow> P t' \<or> (ok \<and> Q t')"
  using start
proof (induction rows arbitrary: v t)
  case Nil
  then show ?case by simp
next
  case (Cons row rows)
  show ?case
  proof (cases row)
    case None
    with Cons.prems show ?thesis by simp
  next
    case (Some entry)
    obtain proceed t' where h: "H entry t = (proceed, t')" by (cases "H entry t")
    show ?thesis
    proof (cases "ResultMatchesJobCriteria k g st (m_jobKey entry) (m_builderGuid entry)
                    (m_status entry)")
      case no: False
      from Cons.IH [OF Cons.prems] show ?thesis using Some no by simp
    next
      case yes: True
      show ?thesis
      proof (cases proceed)
        case True
        then have "P t'" using step [OF Cons.prems, of entry] h by simp
        from Cons.IH [OF this] show ?thesis using Some h True yes by simp
      next
        case False
        then have "Q t'" using step [OF Cons.prems, of entry] h by simp
        then show ?thesis using Some h False yes by simp
      qed
    qed
  qed
qed

lemma GetProductResult_while_post:
  assumes step: "\<And>entry t. P t \<Longrightarrow> (case H entry t of (proceed, t') \<Rightarrow> if proceed then P t' else Q t')"
    and start: "P t"
  shows "case GetProductResult_while H g k st rows e v saved t of (ok, t') \<Rightarrow> P t' \<or> (ok \<and> Q t')"
  using start
proof (induction rows arbitrary: v saved t)
  case Nil
  then show ?case by simp
next
  case (Cons row rows)
  show ?case
  proof (cases row)
    case None
    with Cons.prems show ?thesis by simp
  next
    case (Some entry)
    show ?thesis
    proof (cases rule: GetProductResult_while_Some [of H g k st entry rows e v saved t])
      case fail
      with Some Cons.prems show ?thesis by simp
    next
      case (skip saved')
      from Cons.IH [OF Cons.prems] show ?thesis using Some skip by simp
    next
      case (deliver product saved')
      obtain proceed t' where h: "H product t = (proceed, t')" by (cases "H product t")
      show ?thesis
      proof (cases proceed)
        case True
        then have "P t'" using step [OF Cons.prems, of product] h by simp
        from Cons.IH [OF this] show ?thesis using Some h True deliver by simp
      next
        case False
        then have "Q t'" using step [OF Cons.prems, of product] h by simp
        then show ?thesis using Some h False deliver by simp
      qed
    qed
  qed
qed

lemma GetCombinedResult_while_post:
  assumes step: "\<And>entry t. P t \<Longrightarrow> (case H entry t of (proceed, t') \<Rightarrow> if proceed then P t' else Q t')"
    and start: "P t"
  shows "case GetCombinedResult_while conn H g k st leg rows e v acc t of (ok, t') \<Rightarrow> P t' \<or> (ok \<and> Q t')"
  using start
proof (induction rows arbitrary: v acc t)
  case Nil
  then show ?case by simp
next
  case (Cons row rows)
  show ?case
  proof (cases row)
    case None
    with Cons.prems show ?thesis by simp
  next
    case (Some entry)
    define acc' where "acc' =
      (if leg then snd (QueryLegacySubIdsByProductID conn (m_productID (productColumns entry))
                         (\<lambda>entry subIDs. (True, subIDs @ [entry])) acc)
       else acc)"
    obtain proceed t' where h: "H (entry\<lparr>m_legacySubIDs := acc'\<rparr>) t = (proceed, t')"
      by (cases "H (entry\<lparr>m_legacySubIDs := acc'\<rparr>) t")
    show ?thesis
    proof (cases "ResultMatchesJobCriteria k g st (m_jobKey (jobColumns entry))
                    (m_builderGuid (jobColumns entry)) (m_status (jobColumns entry))")
      case no: False
      from Cons.IH [OF Cons.prems] show ?thesis using Some no by simp
    next
      case yes: True
      show ?thesis
      proof (cases proceed)
        case True
        then have "P t'"
          using step [OF Cons.prems, of "entry\<lparr>m_legacySubIDs := acc'\<rparr>"] h by simp
        from Cons.IH [OF this] show ?thesis
          using Some h True yes by (simp add: acc'_def [symmetric])
      next
        case False
        then have "Q t'"
          using step [OF Cons.prems, of "entry\<lparr>m_legacySubIDs := acc'\<rparr>"] h by simp
        then show ?thesis using Some h False yes by (simp add: acc'_def [symmetric])
      qed
    qed
  qed
qed

lemma QueryBuilderInfoTable_while_post:
  assumes step: "\<And>entry t. P t \<Longrightarrow> (case H entry t of (proceed, t') \<Rightarrow> if proceed then P t' else Q t')"
    and start: "P t"
  shows "case QueryBuilderInfoTable_while H rows e t of (ok, t') \<Rightarrow> P t' \<or> (ok \<and> Q t')"
  using start
proof (induction rows arbitrary: t)
  case Nil
  then show ?case by simp
next
  case (Cons row rows)
  show ?case
  proof (cases row)
    case None
    with Cons.prems show ?thesis by simp
  next
    case (Some entry)
    obtain proceed t' where h: "H entry t = (proceed, t')" by (cases "H entry t")
    show ?thesis
    proof (cases proceed)
      case True
      then have "P t'" using step [OF Cons.prems, of entry] h by simp
      from Cons.IH [OF this] show ?thesis using Some h True by simp
    next
      case False
      then have "Q t'" using step [OF Cons.prems, of entry] h by simp
      then show ?thesis using Some h False by simp
    qed
  qed
qed

subsection \<open>A handler that stops at once\<close>

subsubsection \<open>Method-level post-conditions\<close>

lemma BindAndQuery_post:
  assumes "\<And>statement. bound = Some statement \<Longrightarrow>
             (case callback statement t of (ok, t') \<Rightarrow> P t' \<or> (ok \<and> Q t'))"
    and "P t"
  shows "case BindAndQuery bound callback t of (ok, t') \<Rightarrow> P t' \<or> (ok \<and> Q t')"
  using assms by (cases bound) (simp_all add: BindAndQuery_def)

lemma GetResult_post:
  assumes "\<And>entry t. P t \<Longrightarrow> (case H entry t of (proceed, t') \<Rightarrow> if proceed then P t' else Q t')"
    and "P t"
  shows "case GetResult statement H t of (ok, t') \<Rightarrow> P t' \<or> (ok \<and> Q t')"
  unfolding GetResult_def by (rule GetResult_while_post [OF assms])

lemma GetJobResult_post:
  assumes "\<And>entry t. P t \<Longrightarrow> (case H entry t of (proceed, t') \<Rightarrow> if proceed then P t' else Q t')"
    and "P t"
  shows "case GetJobResult statement H g k st t of (ok, t') \<Rightarrow> P t' \<or> (ok \<and> Q t')"
  unfolding GetJobResult_def by (rule GetJobResult_while_post [OF assms])

lemma GetProductResult_post:
  assumes "\<And>entry t. P t \<Longrightarrow> (case H entry t of (proceed, t') \<Rightarrow> if proceed then P t' else Q t')"
    and "P t"
  shows "case GetProductResult statement H g k st t of (ok, t') \<Rightarrow> P t' \<or> (ok \<and> Q t')"
  unfolding GetProductResult_def by (rule GetProductResult_while_post [OF assms])

lemma GetCombinedResult_post:
  assumes "\<And>entry t. P t \<Longrightarrow> (case H entry t of (proceed, t') \<Rightarrow> if proceed then P t' else Q t')"
    and "P t"
  shows "case GetCombinedResult conn statement H g k st leg t of (ok, t') \<Rightarrow> P t' \<or> (ok \<and> Q t')"
  unfolding GetCombinedResult_def by (rule GetCombinedResult_while_post [OF assms])

lemma QueryBuilderInfoTable_post:
  assumes "\<And>entry t. P t \<Longrightarrow> (case H entry t of (proceed, t') \<Rightarrow> if proceed then P t' else Q t')"
    and "P t"
  shows "case QueryBuilderInfoTable conn H t of (ok, t') \<Rightarrow> P t' \<or> (ok \<and> Q t')"
proof (cases "s_queryBuilderInfoTable conn")
  case None
  with assms(2) show ?thesis by (simp add: QueryBuilderInfoTable_def)
next
  case (Some statement)
  show ?thesis
  proof (cases "Step statement = SqlError")
    case True
    with Some assms(2) show ?thesis by (simp add: QueryBuilderInfoTable_def)
  next
    case False
    with Some QueryBuilderInfoTable_while_post [OF assms, where rows = "pending statement" and e = "atEnd statement"]
    show ?thesis by (simp add: QueryBuilderInfoTable_def)
  qed
qed

lemma QueryCombinedBySourceID_post:
  assumes "\<And>entry t. P t \<Longrightarrow> (case H entry t of (proceed, t') \<Rightarrow> if proceed then P t' else Q t')"
    and "P t"
  shows "case QueryCombinedBySourceID conn i H g k pf st t of (ok, t') \<Rightarrow> P t' \<or> (ok \<and> Q t')"
  unfolding QueryCombinedBySourceID_def GetCombinedResultAsLambda_def
  by (simp add: BindAndQuery_post GetCombinedResult_post [OF assms] assms(2))

lemma QueryCombinedByJobID_post:
  assumes "\<And>entry t. P t \<Longrightarrow> (case H entry t of (proceed, t') \<Rightarrow> if proceed then P t' else Q t')"
    and "P t"
  shows "case QueryCombinedByJobID conn i H g k pf st t of (ok, t') \<Rightarrow> P t' \<or> (ok \<and> Q t')"
  unfolding QueryCombinedByJobID_def GetCombinedResultAsLambda_def
  by (simp add: BindAndQuery_post GetCombinedResult_post [OF assms] assms(2))

lemma QueryCombinedByProductID_post:
  assumes "\<And>entry t. P t \<Longrightarrow> (case H entry t of (proceed, t') \<Rightarrow> if proceed then P t' else Q t')"
    and "P t"
  shows "case QueryCombinedByProductID conn i H g k pf st t of (ok, t') \<Rightarrow> P t' \<or> (ok \<and> Q t')"
  unfolding QueryCombinedByProductID_def GetCombinedResultAsLambda_def
  by (simp add: BindAndQuery_post GetCombinedResult_post [OF assms] assms(2))

lemma QueryJobByJobID_post:
  assumes "\<And>entry t. P t \<Longrightarrow> (case H entry t of (proceed, t') \<Rightarrow> if proceed then P t' else Q t')"
    and "P t"
  shows "case QueryJobByJobID conn i H t of (ok, t') \<Rightarrow> P t' \<or> (ok \<and> Q t')"
  unfolding QueryJobByJobID_def GetJobResultSimple_def
  by (simp add: BindAndQuery_post GetJobResult_post [OF assms] assms(2))

lemma QueryJobByJobKey_post:
  assumes "\<And>entry t. P t \<Longrightarrow> (case H entry t of (proceed, t') \<Rightarrow> if proceed then P t' else Q t')"
    and "P t"
  shows "case QueryJobByJobKey conn i H t of (ok, t') \<Rightarrow> P t' \<or> (ok \<and> Q t')"
  unfolding QueryJobByJobKey_def GetJobResultSimple_def
  by (simp add: BindAndQuery_post GetJobResult_post [OF assms] assms(2))

lemma QueryJobByJobRunKey_post:
  assumes "\<And>entry t. P t \<Longrightarrow> (case H entry t of (proceed, t') \<Rightarrow> if proceed then P t' else Q t')"
    and "P t"
  shows "case QueryJobByJobRunKey conn i H t of (ok, t') \<Rightarrow> P t' \<or> (ok \<and> Q t')"
  unfolding QueryJobByJobRunKey_def GetJobResultSimple_def
  by (simp add: BindAndQuery_post GetJobResult_post [OF assms] assms(2))

lemma QueryJobBySourceID_post:
  assumes "\<And>entry t. P t \<Longrightarrow> (case H entry t of (proceed, t') \<Rightarrow> if proceed then P t' else Q t')"
    and "P t"
  shows "case QueryJobBySourceID conn i H g k pf st t of (ok, t') \<Rightarrow> P t' \<or> (ok \<and> Q t')"
  unfolding QueryJobBySourceID_def
  by (simp add: BindAndQuery_post GetJobResult_post [OF assms] assms(2))

subsubsection \<open>The recording stopper\<close>

lemma recording_stopWith_step:
  "fst t = [] \<Longrightarrow>
   (case recording (stopWith f) entry t of (proceed, t') \<Rightarrow>
      if proceed then fst t' = [] else length (fst t') = 1)"
  by (cases t) (simp add: recording_def stopWith_def)

lemma deliveredOnce_post:
  "(case result of (ok, t') \<Rightarrow> fst t' = [] \<or> (ok \<and> length (fst t') = 1)) \<Longrightarrow>
   deliveredOnce result"
  by (auto simp: deliveredOnce_def split: prod.splits)

lemma GetResult_stop: "deliveredOnce (GetResult statement (recording (stopWith f)) ([], s))"
  by (rule deliveredOnce_post, rule GetResult_post [where P = "\<lambda>t. fst t = []"])
     (simp_all add: recording_stopWith_step)

lemma GetJobResult_stop:
  "deliveredOnce (GetJobResult statement (recording (stopWith f)) g k st ([], s))"
  by (rule deliveredOnce_post, rule GetJobResult_post [where P = "\<lambda>t. fst t = []"])
     (simp_all add: recording_stopWith_step)

lemma GetProductResult_stop:
  "deliveredOnce (GetProductResult statement (recording (stopWith f)) g k st ([], s))"
  by (rule deliveredOnce_post, rule GetProductResult_post [where P = "\<lambda>t. fst t = []"])
     (simp_all add: recording_stopWith_step)

lemma GetCombinedResult_stop:
  "deliveredOnce (GetCombinedResult conn statement (recording (stopWith f)) g k st leg ([], s))"
  by (rule deliveredOnce_post, rule GetCombinedResult_post [where P = "\<lambda>t. fst t = []"])
     (simp_all add: recording_stopWith_step)

lemma QueryBuilderInfoTable_stop:
  "deliveredOnce (QueryBuilderInfoTable conn (recording (stopWith f)) ([], s))"
  by (rule deliveredOnce_post, rule QueryBuilderInfoTable_post [where P = "\<lambda>t. fst t = []"])
     (simp_all add: recording_stopWith_step)

lemma GetResult_stop_first:
  "GetResult (Statement (Some entry # rows) e) (recording (stopWith f)) ([], s) =
   (True, ([entry], f entry s))"
  by (simp add: GetResult_def recording_def stopWith_def)

subsubsection \<open>Projections\<close>

lemma projection_step:
  "fst t = [] \<Longrightarrow>
   (case (let (proceed, st') = recording (stopWith f) x t in (proceed, (True, st')))
    of (proceed, t') \<Rightarrow>
      if proceed then fst (snd t') = [] else (fst t' \<and> length (fst (snd t')) = 1))"
  by (cases t) (simp add: recording_def stopWith_def)

lemma found_post:
  "(case result of (ok, t') \<Rightarrow>
      fst (snd t') = [] \<or>
      (ok \<and> (fst (snd t') = [] \<or> (fst t' \<and> length (fst (snd t')) = 1)))) \<Longrightarrow>
   deliveredOnce (let (succeeded, (found, s')) = result in (found \<and> succeeded, s'))"
  by (auto simp: deliveredOnce_def split: prod.splits)

lemma QueryScanFolderBySourceID_stop:
  "deliveredOnce (QueryScanFolderBySourceID conn sourceID (recording (stopWith f)) ([], s))"
  unfolding QueryScanFolderBySourceID_def
  by (rule found_post,
      rule QueryCombinedBySourceID_post [where P = "\<lambda>t. fst (snd t) = []"
          and Q = "\<lambda>t. fst (snd t) = [] \<or> (fst t \<and> length (fst (snd t)) = 1)"])
     (auto simp: recording_def stopWith_def)

lemma QueryScanFolderByJobID_stop:
  "deliveredOnce (QueryScanFolderByJobID conn jobID (recording (stopWith f)) ([], s))"
  unfolding QueryScanFolderByJobID_def
  by (rule found_post,
      rule QueryCombinedByJobID_post [where P = "\<lambda>t. fst (snd t) = []"
          and Q = "\<lambda>t. fst (snd t) = [] \<or> (fst t \<and> length (fst (snd t)) = 1)"])
     (auto simp: recording_def stopWith_def)

lemma QueryScanFolderByProductID_stop:
  "deliveredOnce (QueryScanFolderByProductID conn productID (recording (stopWith f)) ([], s))"
  unfolding QueryScanFolderByProductID_def
  by (rule found_post,
      rule QueryCombinedBySourceID_post [where P = "\<lambda>t. fst (snd t) = []"
          and Q = "\<lambda>t. fst (snd t) = [] \<or> (fst t \<and> length (fst (snd t)) = 1)"])
     (auto simp: recording_def stopWith_def)

subsubsection \<open>One source: whatever the handler answers\<close>

lemma QuerySourceByJobID_once:
  "deliveredOnce (QuerySourceByJobID conn jobid (recording handler) ([], s))"
  unfolding QuerySourceByJobID_def
  by (rule deliveredOnce_post,
      rule QueryCombinedByJobID_post [where P = "\<lambda>t. fst t = []"])
     (auto simp: recording_def split: prod.splits)

lemma QuerySourceByProductID_once:
  "deliveredOnce (QuerySourceByProductID conn productid (recording handler) ([], s))"
  unfolding QuerySourceByProductID_def
  by (rule deliveredOnce_post,
      rule QueryCombinedByProductID_post [where P = "\<lambda>t. fst t = []"])
     (auto simp: recording_def split: prod.splits)

subsubsection \<open>Job info\<close>

lemma deliveredOnce_nothing: "deliveredOnce (ok, ([], s))"
  by (simp add: deliveredOnce_def)

lemma QueryJobInfoByJobID_stop:
  "deliveredOnce (QueryJobInfoByJobID conn jobID (recording (stopWith f)) ([], s))"
proof -
  obtain succeeded found source where first:
    "QuerySourceByJobID conn jobID (\<lambda>entry (found, source). (False, (True, entry)))
       (False, SourceDatabaseEntry_default) = (succeeded, (found, source))"
    by (metis prod.exhaust)
  show ?thesis
  proof (cases "\<not> found \<or> \<not> succeeded")
    case True
    with first show ?thesis
      by (simp add: QueryJobInfoByJobID_def deliveredOnce_nothing)
  next
    case False
    have "deliveredOnce
       (let (succeeded', (found', s')) =
              QueryJobByJobID conn jobID
                (\<lambda>entry (found, st).
                   let jobinfo = JobInfo_default\<lparr>m_sourceFile := m_sourceName source\<rparr>;
                       (proceed, st') = recording (stopWith f) (PopulateJobInfo jobinfo entry) st
                   in (proceed, (True, st')))
                (False, ([], s))
        in (found' \<and> succeeded', s'))"
      by (rule found_post, rule QueryJobByJobID_post [where P = "\<lambda>t. fst (snd t) = []"
          and Q = "\<lambda>t. fst (snd t) = [] \<or> (fst t \<and> length (fst (snd t)) = 1)"])
         (auto simp: recording_def stopWith_def Let_def)
    with first False show ?thesis by (simp add: QueryJobInfoByJobID_def)
  qed
qed

lemma QueryJobInfoByJobRunKey_stop:
  "deliveredOnce (QueryJobInfoByJobRunKey conn jobRunKey (recording (stopWith f)) ([], s))"
  unfolding QueryJobInfoByJobRunKey_def
  by (rule found_post, rule QueryJobByJobRunKey_post [where P = "\<lambda>t. fst (snd t) = []"
          and Q = "\<lambda>t. fst (snd t) = [] \<or> (fst t \<and> length (fst (snd t)) = 1)"])
     (auto simp: recording_def stopWith_def Let_def split: prod.splits)

lemma QueryJobInfoByJobKey_stop:
  "deliveredOnce (QueryJobInfoByJobKey conn jobKey (recording (stopWith f)) ([], s))"
  unfolding QueryJobInfoByJobKey_def
  by (rule found_post, rule QueryJobByJobKey_post [where P = "\<lambda>t. fst (snd t) = []"
          and Q = "\<lambda>t. fst (snd t) = [] \<or> (fst t \<and> length (fst (snd t)) = 1)"])
     (auto simp: recording_def stopWith_def Let_def split: prod.splits)

subsection \<open>Calls that find nothing\<close>

subsubsection \<open>Zero rows\<close>

lemma zero_rows:
  "GetResult (Statement [] Done) (recording h1) ([], s1) = (True, ([], s1))"
  "GetJobResult (Statement [] Done) (recording h2) g k st ([], s2) = (True, ([], s2))"
  "GetProductResult (Statement [] Done) (recording h3) g k st ([], s3) = (True, ([], s3))"
  "GetCombinedResult conn (Statement [] Done) (recording h4) g k st leg ([], s4) = (True, ([], s4))"
  "QueryBuilderInfoTable_while (recording h5) [] Done ([], s5) = (True, ([], s5))"
  by (simp_all add: GetResult_def GetJobResult_def GetProductResult_def GetCombinedResult_def)

subsubsection \<open>No store error, then true\<close>

lemma GetResult_while_healthy:
  "fst (GetResult_while H (map Some rows) Done v t) = (v \<or> rows \<noteq> [])"
proof (induction rows arbitrary: v t)
  case Nil
  show ?case by simp
next
  case (Cons row rows)
  obtain proceed t' where h: "H row t = (proceed, t')" by (cases "H row t")
  show ?case using h Cons.IH [of True t'] by simp
qed

lemma GetJobResult_while_healthy:
  "fst (GetJobResult_while H g k st (map Some rows) Done v t) = (v \<or> rows \<noteq> [])"
proof (induction rows arbitrary: v t)
  case Nil
  show ?case by simp
next
  case (Cons row rows)
  obtain proceed t' where h: "H row t = (proceed, t')" by (cases "H row t")
  show ?case using h Cons.IH [of True t'] Cons.IH [of True t] by simp
qed

lemma GetCombinedResult_while_healthy:
  "fst (GetCombinedResult_while conn H g k st leg (map Some rows) Done v acc t) = (v \<or> rows \<noteq> [])"
proof (induction rows arbitrary: v acc t)
  case Nil
  show ?case by simp
next
  case (Cons row rows)
  define acc' where "acc' =
      (if leg then snd (QueryLegacySubIdsByProductID conn (m_productID (productColumns row))
                         (\<lambda>entry subIDs. (True, subIDs @ [entry])) acc)
       else acc)"
  obtain proceed t' where h: "H (row\<lparr>m_legacySubIDs := acc'\<rparr>) t = (proceed, t')"
    by (cases "H (row\<lparr>m_legacySubIDs := acc'\<rparr>) t")
  show ?case using h Cons.IH [of True acc' t'] Cons.IH [of True acc t]
    by (simp add: acc'_def [symmetric])
qed

lemma QueryBuilderInfoTable_while_healthy:
  "fst (QueryBuilderInfoTable_while H (map Some rows) Done t)"
proof (induction rows arbitrary: t)
  case Nil
  show ?case by simp
next
  case (Cons row rows)
  obtain proceed t' where h: "H row t = (proceed, t')" by (cases "H row t")
  show ?case using h Cons.IH [of t'] by simp
qed

lemma GetProductResult_while_Some_fetches:
  assumes "fetches g k st r"
  obtains
    (skip) saved' where
      "GetProductResult_while H g k st (Some r # rows) e v saved t =
       GetProductResult_while H g k st rows e True saved' t"
  | (deliver) product saved' where
      "GetProductResult_while H g k st (Some r # rows) e v saved t =
       (let (proceed, t') = H product t in
        if proceed then GetProductResult_while H g k st rows e True saved' t' else (True, t'))"
proof -
  obtain sk sg ss where saved: "saved = (sk, sg, ss)" by (cases saved)
  from assms have nofail: "\<not> ((k \<noteq> None \<and> jobKeyFetch r = None) \<or> (\<not> IsNull g \<and> builderGuidFetch r = None)
         \<or> (st \<noteq> Any \<and> statusFetch r = None))"
    by (auto simp: fetches_def)
  from assms obtain product where product: "productFetch r = Some product"
    by (auto simp: fetches_def)
  define sk' where "sk' = (if k \<noteq> None
                then (case jobKeyFetch r of Some k \<Rightarrow> k | None \<Rightarrow> sk) else sk)"
  define sg' where "sg' = (if \<not> IsNull g
                then (case builderGuidFetch r of Some g \<Rightarrow> g | None \<Rightarrow> sg) else sg)"
  define ss' where "ss' = (if st \<noteq> Any
                then (case statusFetch r of Some t \<Rightarrow> t | None \<Rightarrow> ss) else ss)"
  have unfold: "GetProductResult_while H g k st (Some r # rows) e v saved t =
       (if ResultMatchesJobCriteria k g st sk' sg' ss'
        then (case productFetch r of
                None \<Rightarrow> (False, t)
              | Some product \<Rightarrow>
                  (let (proceed, t') = H product t in
                   if proceed then GetProductResult_while H g k st rows e True (sk', sg', ss') t'
                   else (True, t')))
        else GetProductResult_while H g k st rows e True (sk', sg', ss') t)"
    using nofail unfolding saved sk'_def sg'_def ss'_def
    by (simp only: GetProductResult_while.simps if_False Let_def prod.case)
  show ?thesis
  proof (cases "ResultMatchesJobCriteria k g st sk' sg' ss'")
    case False
    with unfold show ?thesis by (intro skip [of "(sk', sg', ss')"]) simp
  next
    case True
    with unfold product show ?thesis by (intro deliver [of product "(sk', sg', ss')"]) simp
  qed
qed

lemma GetProductResult_while_healthy:
  "list_all (fetches g k st) rows \<Longrightarrow>
   fst (GetProductResult_while H g k st (map Some rows) Done v saved t) = (v \<or> rows \<noteq> [])"
proof (induction rows arbitrary: v saved t)
  case Nil
  show ?case by simp
next
  case (Cons row rows)
  then have f: "fetches g k st row" and rest: "list_all (fetches g k st) rows" by simp_all
  from f show ?case
  proof (cases rule: GetProductResult_while_Some_fetches
      [where H = H and rows = "map Some rows" and e = Done and v = v and saved = saved and t = t])
    case (skip saved')
    then show ?thesis using Cons.IH [OF rest, of True saved' t] by simp
  next
    case (deliver product saved')
    obtain proceed t' where h: "H product t = (proceed, t')" by (cases "H product t")
    show ?thesis using deliver h Cons.IH [OF rest, of True saved' t'] by simp
  qed
qed

subsubsection \<open>Found flag: nothing delivered, then false\<close>

lemma falseWhenEmpty_post:
  "(case result of (ok, t') \<Rightarrow>
      (fst t' \<longrightarrow> fst (snd t') \<noteq> []) \<or> (ok \<and> (fst t' \<longrightarrow> fst (snd t') \<noteq> []))) \<Longrightarrow>
   falseWhenEmpty (let (succeeded, (found, s')) = result in (found \<and> succeeded, s'))"
  by (auto simp: falseWhenEmpty_def split: prod.splits)

lemma QueryScanFolderBySourceID_empty:
  "falseWhenEmpty (QueryScanFolderBySourceID conn sourceID (recording h) ([], s))"
  unfolding QueryScanFolderBySourceID_def
  by (rule falseWhenEmpty_post,
      rule QueryCombinedBySourceID_post [where P = "\<lambda>t. fst t \<longrightarrow> fst (snd t) \<noteq> []"])
     (auto simp: recording_def split: prod.splits)

lemma QueryScanFolderByJobID_empty:
  "falseWhenEmpty (QueryScanFolderByJobID conn jobID (recording h) ([], s))"
  unfolding QueryScanFolderByJobID_def
  by (rule falseWhenEmpty_post,
      rule QueryCombinedByJobID_post [where P = "\<lambda>t. fst t \<longrightarrow> fst (snd t) \<noteq> []"])
     (auto simp: recording_def split: prod.splits)

lemma QueryScanFolderByProductID_empty:
  "falseWhenEmpty (QueryScanFolderByProductID conn productID (recording h) ([], s))"
  unfolding QueryScanFolderByProductID_def
  by (rule falseWhenEmpty_post,
      rule QueryCombinedBySourceID_post [where P = "\<lambda>t. fst t \<longrightarrow> fst (snd t) \<noteq> []"])
     (auto simp: recording_def split: prod.splits)

lemma falseWhenEmpty_False: "falseWhenEmpty (False, t)"
  by (simp add: falseWhenEmpty_def split: prod.splits)

lemma QueryJobInfoByJobID_empty:
  "falseWhenEmpty (QueryJobInfoByJobID conn jobID (recording h) ([], s))"
proof -
  obtain succeeded found source where first:
    "QuerySourceByJobID conn jobID (\<lambda>entry (found, source). (False, (True, entry)))
       (False, SourceDatabaseEntry_default) = (succeeded, (found, source))"
    by (metis prod.exhaust)
  show ?thesis
  proof (cases "\<not> found \<or> \<not> succeeded")
    case True
    with first show ?thesis
      by (simp add: QueryJobInfoByJobID_def falseWhenEmpty_False)
  next
    case False
    have "falseWhenEmpty
       (let (succeeded', (found', s')) =
              QueryJobByJobID conn jobID
                (\<lambda>entry (found, st).
                   let jobinfo = JobInfo_default\<lparr>m_sourceFile := m_sourceName source\<rparr>;
                       (proceed, st') = recording h (PopulateJobInfo jobinfo entry) st
                   in (proceed, (True, st')))
                (False, ([], s))
        in (found' \<and> succeeded', s'))"
      by (rule falseWhenEmpty_post,
          rule QueryJobByJobID_post [where P = "\<lambda>t. fst t \<longrightarrow> fst (snd t) \<noteq> []"])
         (auto simp: recording_def Let_def split: prod.splits)
    with first False show ?thesis by (simp add: QueryJobInfoByJobID_def)
  qed
qed

lemma QueryJobInfoByJobRunKey_empty:
  "falseWhenEmpty (QueryJobInfoByJobRunKey conn jobRunKey (recording h) ([], s))"
  unfolding QueryJobInfoByJobRunKey_def
  by (rule falseWhenEmpty_post,
      rule QueryJobByJobRunKey_post [where P = "\<lambda>t. fst t \<longrightarrow> fst (snd t) \<noteq> []"])
     (auto simp: recording_def Let_def split: prod.splits)

lemma QueryJobInfoByJobKey_empty:
  "falseWhenEmpty (QueryJobInfoByJobKey conn jobKey (recording h) ([], s))"
  unfolding QueryJobInfoByJobKey_def
  by (rule falseWhenEmpty_post,
      rule QueryJobByJobKey_post [where P = "\<lambda>t. fst t \<longrightarrow> fst (snd t) \<noteq> []"])
     (auto simp: recording_def Let_def split: prod.splits)

lemma QueryJobInfoBySourceName_empty:
  "falseWhenEmpty (QueryJobInfoBySourceName conn sourceName (recording h) g k pf st ([], s))"
proof -
  obtain succeeded found source where first:
    "QuerySourceBySourceName conn sourceName (\<lambda>entry (found, source). (False, (True, entry)))
       (False, SourceDatabaseEntry_default) = (succeeded, (found, source))"
    by (metis prod.exhaust)
  show ?thesis
  proof (cases "\<not> found \<or> \<not> succeeded")
    case True
    with first show ?thesis
      by (simp add: QueryJobInfoBySourceName_def falseWhenEmpty_False)
  next
    case False
    have "falseWhenEmpty
       (let (succeeded', (found', s')) =
                  QueryJobBySourceID conn (m_sourceID source)
                    (\<lambda>entry (found, st).
                       let jobinfo = JobInfo_default\<lparr>m_sourceFile := m_sourceName source\<rparr>;
                           (scan, (found', jobinfo')) =
                             QueryScanFolderBySourceID conn (m_sourceID source)
                               (\<lambda>scanFolderEntry (found, jobinfo).
                                  (False, (True,
                                     jobinfo\<lparr>m_watchFolder := m_scanFolder scanFolderEntry\<rparr>)))
                               (found, jobinfo);
                           (proceed, st') = recording h (PopulateJobInfo jobinfo' entry) st
                       in (proceed, (found', st')))
                    g k pf st (False, ([], s))
            in (found' \<and> succeeded', s'))"
      by (rule falseWhenEmpty_post,
          rule QueryJobBySourceID_post [where P = "\<lambda>t. fst t \<longrightarrow> fst (snd t) \<noteq> []"])
         (auto simp: recording_def Let_def split: prod.splits)
    with first False show ?thesis by (simp add: QueryJobInfoBySourceName_def)
  qed
qed

subsection \<open>A handler that asks for every row\<close>

lemma recording_keepWith [simp]:
  "recording (keepWith f) entry (seen, s) = (True, (seen @ [entry], f entry s))"
  by (simp add: recording_def keepWith_def)

lemma IsNull_CreateNull [simp]: "IsNull CreateNull"
  by (simp add: CreateNull_def IsNull_def)

lemma Step_healthy [simp]: "(Step (Statement (map f rows) Done) = SqlDone) = (rows = [])"
  by (cases rows) simp_all

lemma GetResult_while_keep:
  "GetResult_while (recording (keepWith f)) (map Some rows) Done v (seen, s) =
   (v \<or> rows \<noteq> [], (seen @ rows, fold f rows s))"
  by (induction rows arbitrary: v seen s) simp_all

lemma GetResult_keep:
  "GetResult (Statement (map Some rows) Done) (recording (keepWith f)) ([], s) =
   (True, (rows, fold f rows s))"
  by (simp add: GetResult_def GetResult_while_keep)

lemma no_criteria [simp]: "ResultMatchesJobCriteria None CreateNull Any jobKey guid status"
  by (simp add: ResultMatchesJobCriteria_def)

lemma GetCombinedResult_while_keep:
  "GetCombinedResult_while conn (recording (keepWith f)) CreateNull None Any False
     (map Some rows) Done v acc (seen, s) =
   (v \<or> rows \<noteq> [],
    (seen @ map (\<lambda>fetched. fetched\<lparr>m_legacySubIDs := acc\<rparr>) rows,
     fold f (map (\<lambda>fetched. fetched\<lparr>m_legacySubIDs := acc\<rparr>) rows) s))"
  by (induction rows arbitrary: v seen s) simp_all

lemma GetProductResult_while_keep:
  "GetProductResult_while (recording (keepWith f)) CreateNull None Any
     (map (Some \<circ> productColumnsOnly) rows) Done v saved (seen, s) =
   (v \<or> rows \<noteq> [], (seen @ rows, fold f rows s))"
proof (induction rows arbitrary: v seen s)
  case Nil
  show ?case by simp
next
  case (Cons row rows)
  obtain sk sg ss where saved: "saved = (sk, sg, ss)" by (cases saved)
  have fetch: "productFetch (productColumnsOnly row) = Some row"
    by (simp add: productColumnsOnly_def)
  show ?case
    using Cons.IH by (simp add: saved fetch)
qed

lemma QueryUnresolvedProductDependencies_keep:
  "QueryUnresolvedProductDependencies (connect db) (recording (keepWith f)) ([], s) =
   (True, ([D \<leftarrow> ProductDependencies db. m_unresolvedPath D \<noteq> []],
           fold f [D \<leftarrow> ProductDependencies db. m_unresolvedPath D \<noteq> []] s))"
  by (simp add: QueryUnresolvedProductDependencies_def connect_def answered_def
      BindAndQuery_def GetResult_keep GET_UNRESOLVED_PRODUCT_DEPENDENCIES_STATEMENT_def)

lemma QueryAllProductDependencies_keep:
  "QueryAllProductDependencies (connect db) productID (recording (keepWith f)) ([], s) =
   (True, (QUERY_ALL_PRODUCTDEPENDENCIES_STATEMENT db productID,
           fold f (QUERY_ALL_PRODUCTDEPENDENCIES_STATEMENT db productID) s))"
proof -
  have "GetProductResult (Statement (map (Some \<circ> productColumnsOnly) rows) Done)
          (recording (keepWith f)) CreateNull None Any ([], s) = (True, (rows, fold f rows s))"
    for rows
    by (simp add: GetProductResult_def GetProductResult_while_keep)
  then show ?thesis
    by (simp add: QueryAllProductDependencies_def connect_def answered_def BindAndQuery_def
        GetProductResultSimple_def)
qed

lemma combinedRow_legacy [simp]: "(combinedRow F S J P)\<lparr>m_legacySubIDs := []\<rparr> = combinedRow F S J P"
  by (simp add: combinedRow_def)

lemma QueryCombinedBySourceID_keep:
  "QueryCombinedBySourceID (connect db) sourceID (recording (keepWith f)) CreateNull None None Any
     ([], s) =
   (True, (QUERY_COMBINED_BY_SOURCEID_STATEMENT db sourceID,
           fold f (QUERY_COMBINED_BY_SOURCEID_STATEMENT db sourceID) s))"
proof -
  have "c\<lparr>m_legacySubIDs := []\<rparr> = c"
    if c: "c \<in> set (QUERY_COMBINED_BY_SOURCEID_STATEMENT db sourceID)" for c
  proof -
    from c have "m_legacySubIDs c = []"
      by (auto simp: QUERY_COMBINED_BY_SOURCEID_STATEMENT_def combinedRow_def)
    then show ?thesis by (cases c) simp
  qed
  then have legacy: "map (\<lambda>fetched. fetched\<lparr>m_legacySubIDs := []\<rparr>)
          (QUERY_COMBINED_BY_SOURCEID_STATEMENT db sourceID) =
        QUERY_COMBINED_BY_SOURCEID_STATEMENT db sourceID"
    by (simp add: map_idI)
  show ?thesis
    by (simp add: QueryCombinedBySourceID_def connect_def answered_def BindAndQuery_def
        GetCombinedResultAsLambda_def GetCombinedResult_def GetCombinedResult_while_keep
        hasPlatform_def legacy)
qed

lemma connect_fields [simp]:
  "s_queryCombinedBySourceid (connect db) sourceID =
     answered (QUERY_COMBINED_BY_SOURCEID_STATEMENT db sourceID)"
  "s_queryAllProductdependencies (connect db) productID =
     answered (map productColumnsOnly (QUERY_ALL_PRODUCTDEPENDENCIES_STATEMENT db productID))"
  "s_queryUnresolvedProductDependencies (connect db) =
     answered (GET_UNRESOLVED_PRODUCT_DEPENDENCIES_STATEMENT db)"
  by (simp_all add: connect_def)

lemma GetCombinedResult_while_found:
  assumes "\<And>c found seen s. H c (found, (seen, s)) = (True, (True, (seen @ [p c], f (p c) s)))"
  shows "GetCombinedResult_while conn H CreateNull None Any False (map Some rows) Done v acc
           (found, (seen, s)) =
         (v \<or> rows \<noteq> [],
          (found \<or> rows \<noteq> [],
           (seen @ map (\<lambda>c. p (c\<lparr>m_legacySubIDs := acc\<rparr>)) rows,
            fold f (map (\<lambda>c. p (c\<lparr>m_legacySubIDs := acc\<rparr>)) rows) s)))"
  by (induction rows arbitrary: v found seen s) (simp_all add: assms)

lemma QueryCombinedBySourceID_connect:
  "QueryCombinedBySourceID (connect db) sourceID H CreateNull None None Any t =
   GetCombinedResult_while (connect db) H CreateNull None Any False
     (map Some (QUERY_COMBINED_BY_SOURCEID_STATEMENT db sourceID)) Done
     (QUERY_COMBINED_BY_SOURCEID_STATEMENT db sourceID = []) [] t"
  by (simp add: QueryCombinedBySourceID_def answered_def BindAndQuery_def
      GetCombinedResultAsLambda_def GetCombinedResult_def hasPlatform_def)

lemma QueryScanFolderBySourceID_keep:
  "QueryScanFolderBySourceID (connect db) sourceID (recording (keepWith f)) ([], s) =
   (QUERY_COMBINED_BY_SOURCEID_STATEMENT db sourceID \<noteq> [],
    (map scanFolderColumns (QUERY_COMBINED_BY_SOURCEID_STATEMENT db sourceID),
     fold f (map scanFolderColumns (QUERY_COMBINED_BY_SOURCEID_STATEMENT db sourceID)) s))"
  unfolding QueryScanFolderBySourceID_def QueryCombinedBySourceID_connect
  by (subst GetCombinedResult_while_found [where p = scanFolderColumns and f = f]) auto


subsubsection \<open>The first row of a source query\<close>

lemma QuerySourceByJobID_first:
  "s_queryCombinedByJobid conn jobID = Some (Statement (Some combined # rows) e) \<Longrightarrow>
   QuerySourceByJobID conn jobID (recording handler) ([], s) =
   (True, ([sourceColumns combined], snd (handler (sourceColumns combined) s)))"
  by (simp add: QuerySourceByJobID_def QueryCombinedByJobID_def hasPlatform_def
      BindAndQuery_def GetCombinedResultAsLambda_def GetCombinedResult_def recording_def
      split: prod.splits)

subsubsection \<open>What any handler is shown is a prefix of the rows\<close>

lemma GetResult_while_prefix:
  "\<exists>k. fst (snd (GetResult_while (recording handler) (map Some rows) Done v (seen, s))) =
       seen @ take k rows"
proof (induction rows arbitrary: v seen s)
  case Nil
  show ?case by simp
next
  case (Cons row rows)
  obtain proceed s' where h: "handler row s = (proceed, s')" by (cases "handler row s")
  show ?case
  proof (cases proceed)
    case True
    from Cons.IH [of True "seen @ [row]" s'] obtain k where
      "fst (snd (GetResult_while (recording handler) (map Some rows) Done True
         (seen @ [row], s'))) = (seen @ [row]) @ take k rows" ..
    with h True have "fst (snd (GetResult_while (recording handler) (map Some (row # rows))
        Done v (seen, s))) = seen @ take (Suc k) (row # rows)"
      by (simp add: recording_def)
    then show ?thesis ..
  next
    case False
    with h have "fst (snd (GetResult_while (recording handler) (map Some (row # rows))
        Done v (seen, s))) = seen @ take (Suc 0) (row # rows)"
      by (simp add: recording_def)
    then show ?thesis ..
  qed
qed

subsection \<open>Opening, validating, closing\<close>






lemma CloseDatabase_new:
  "fst (CloseDatabase this world) = AssetDatabaseConnection_new"
  by (cases this) (simp add: CloseDatabase_def AssetDatabaseConnection_new_def split: option.splits)


lemma CloseDatabase_calls:
  "filter isOpenStore (calls (snd (CloseDatabase this world))) = filter isOpenStore (calls world)"
  by (simp add: CloseDatabase_def split: option.splits)

text \<open>The example store opens when its version is the expected one.\<close>

lemma OpenDatabase_example:
  "OpenDatabase noFolder False (Version 20) DatabaseDoesNotExist
     AssetDatabaseConnection_new exampleWorld
   = (True,
      \<lparr>m_databaseConnection = Some (connect exampleDatabase),
       m_validatedTables = set EXPECTED_TABLES\<rparr>,
      exampleWorld\<lparr>calls := [OpenStore ''/cache/assetdb.sqlite'' False]\<rparr>)"
proof -
  have stored: "QueryDatabaseVersion (connect exampleDatabase) DatabaseDoesNotExist = Version 20"
    by code_simp
  have tables: "DoesTableExist (connect exampleDatabase) = (\<lambda>t. t \<in> set EXPECTED_TABLES)"
    and isOpen: "IsOpen (connect exampleDatabase)"
    by (simp_all add: connect_def)
  have "PostOpenDatabase_tables EXPECTED_TABLES
      \<lparr>m_databaseConnection = Some (connect exampleDatabase), m_validatedTables = {}\<rparr>
    = (True, \<lparr>m_databaseConnection = Some (connect exampleDatabase),
              m_validatedTables = set EXPECTED_TABLES\<rparr>)"
    by (simp add: EXPECTED_TABLES_def ValidateDatabaseTable_def tables isOpen insert_commute)
  then show ?thesis
    by (simp add: OpenDatabase_def Let_def exampleWorld_def GetAssetDatabaseFilePath_def
        noFolder_def AssetDatabaseConnection_new_def PostOpenDatabase_def stored)
qed

subsection \<open>Search terms\<close>

lemma escapeWildcards_Nil [simp]: "escapeWildcards [] = []"
  by (simp add: escapeWildcards_def Replace_def)

lemma escapeWildcards_Cons:
  "escapeWildcards (c # literal) =
     (if c = CHR ''%'' then ''|%'' else if c = CHR ''_'' then ''|_'' else [c]) @ escapeWildcards literal"
  by (simp add: escapeWildcards_def Replace_def)

lemma LIKE_percent:
  "LIKE same escape (CHR ''%'' # pattern) str =
   (\<exists>skipped rest. str = skipped @ rest \<and> LIKE same escape pattern rest)"
proof (induction str)
  case Nil
  show ?case by simp
next
  case (Cons t str)
  show ?case
  proof
    assume "LIKE same escape (CHR ''%'' # pattern) (t # str)"
    then consider "LIKE same escape pattern (t # str)"
      | "LIKE same escape (CHR ''%'' # pattern) str" by auto
    then show "\<exists>skipped rest. t # str = skipped @ rest \<and> LIKE same escape pattern rest"
    proof cases
      case 1
      then have "t # str = [] @ (t # str) \<and> LIKE same escape pattern (t # str)" by simp
      then show ?thesis by blast
    next
      case 2
      with Cons.IH obtain skipped rest where "str = skipped @ rest"
        and "LIKE same escape pattern rest" by blast
      then have "t # str = (t # skipped) @ rest \<and> LIKE same escape pattern rest" by simp
      then show ?thesis by blast
    qed
  next
    assume "\<exists>skipped rest. t # str = skipped @ rest \<and> LIKE same escape pattern rest"
    then obtain skipped rest where split: "t # str = skipped @ rest"
      and rest: "LIKE same escape pattern rest" by blast
    show "LIKE same escape (CHR ''%'' # pattern) (t # str)"
    proof (cases skipped)
      case Nil
      with split rest have "LIKE same escape pattern (t # str)" by simp
      then show ?thesis by simp
    next
      case (Cons a skipped')
      with split have "str = skipped' @ rest" by simp
      with rest Cons.IH have "LIKE same escape (CHR ''%'' # pattern) str" by blast
      then show ?thesis by simp
    qed
  qed
qed

lemma LIKE_escapeWildcards:
  "CHR ''|'' \<notin> set literal \<Longrightarrow>
   LIKE same (CHR ''|'') (escapeWildcards literal @ pattern) str =
   (\<exists>found rest. str = found @ rest \<and> list_all2 same literal found
                 \<and> LIKE same (CHR ''|'') pattern rest)"
proof (induction literal arbitrary: str)
  case Nil
  show ?case by simp
next
  case (Cons c literal)
  then have c: "c \<noteq> CHR ''|''" and rest: "CHR ''|'' \<notin> set literal" by auto
  have step: "LIKE same (CHR ''|'') (escapeWildcards (c # literal) @ pattern) str =
      (case str of [] \<Rightarrow> False
       | t # str' \<Rightarrow> same c t \<and> LIKE same (CHR ''|'') (escapeWildcards literal @ pattern) str')"
    using c by (cases str) (auto simp: escapeWildcards_Cons)
  show ?case
  proof (cases str)
    case Nil
    with step show ?thesis by simp
  next
    case (Cons t str')
    have "(\<exists>found rest. t # str' = found @ rest \<and> list_all2 same (c # literal) found
                 \<and> LIKE same (CHR ''|'') pattern rest) =
          (same c t \<and> (\<exists>found rest. str' = found @ rest \<and> list_all2 same literal found
                 \<and> LIKE same (CHR ''|'') pattern rest))"
      by (auto simp: list_all2_Cons1 Cons_eq_append_conv)
    with step Cons Cons.IH [OF rest, of str'] show ?thesis by simp
  qed
qed


lemma LIKE_modes:
  assumes "CHR ''|'' \<notin> set literal"
  shows "LIKE same (CHR ''|'') (GetLikeActualSearchTerm literal StartsWith) str =
           (\<exists>found after. str = found @ after \<and> list_all2 same literal found)"
    and "LIKE same (CHR ''|'') (GetLikeActualSearchTerm literal EndsWith) str =
           (\<exists>before found. str = before @ found \<and> list_all2 same literal found)"
    and "LIKE same (CHR ''|'') (GetLikeActualSearchTerm literal Matches) str =
           (\<exists>before found after. str = before @ found @ after
                                   \<and> list_all2 same literal found)"
proof -
  have all: "LIKE same (CHR ''|'') ''%'' rest" for rest
    by (induction rest) simp_all
  have none: "LIKE same (CHR ''|'') [] rest = (rest = [])" for rest
    by simp
  show "LIKE same (CHR ''|'') (GetLikeActualSearchTerm literal StartsWith) str =
           (\<exists>found after. str = found @ after \<and> list_all2 same literal found)"
    using LIKE_escapeWildcards [OF assms, of same "''%''" str]
    by (simp add: GetLikeActualSearchTerm_def Append_def escapeWildcards_def [symmetric] all)
  show "LIKE same (CHR ''|'') (GetLikeActualSearchTerm literal EndsWith) str =
           (\<exists>before found. str = before @ found \<and> list_all2 same literal found)"
    using LIKE_escapeWildcards [OF assms, of same "[]"]
    by (simp add: GetLikeActualSearchTerm_def Prepend_def escapeWildcards_def [symmetric]
        LIKE_percent)
  show "LIKE same (CHR ''|'') (GetLikeActualSearchTerm literal Matches) str =
           (\<exists>before found after. str = before @ found @ after
                                   \<and> list_all2 same literal found)"
  proof -
    have "LIKE same (CHR ''|'') (GetLikeActualSearchTerm literal Matches) str =
          (\<exists>before rest. str = before @ rest
             \<and> (\<exists>found after. rest = found @ after \<and> list_all2 same literal found))"
      using LIKE_escapeWildcards [OF assms, of same "''%''"]
      by (simp add: GetLikeActualSearchTerm_def Prepend_def Append_def escapeWildcards_def [symmetric]
          LIKE_percent all)
    then show ?thesis by blast
  qed
qed

subsection \<open>The recursive statement and the dependency graph\<close>

text \<open>
  The recursive select gives the products one edge away. The rows the queue yields are
  then followed through the loop with this invariant: every queued row was added, the
  queue has no row twice, and every added row that has left the queue has all its
  successors among the added rows.
\<close>

lemma allProductDeps_recursive_dependsOn:
  "set (allProductDeps_recursive db A) = {B. dependsOn db A B}"
proof -
  have "B \<in> set (allProductDeps_recursive db A) \<longleftrightarrow> dependsOn db A B" for B
  proof
    assume "B \<in> set (allProductDeps_recursive db A)"
    then obtain J S D where "B \<in> set (Products db)" "J \<in> set (Jobs db)"
      "m_jobID J = m_jobPK B" "S \<in> set (Sources db)" "m_sourceID S = m_sourcePK J"
      "D \<in> set (ProductDependencies db)" "m_sourceGuid S = m_dependencySourceGuid D"
      "m_subID B = m_dependencySubID D" "m_productPK D = m_productID A"
      by (auto simp: allProductDeps_recursive_def)
    then show "dependsOn db A B"
      unfolding dependsOn_def by (metis (no_types))
  next
    assume "dependsOn db A B"
    then obtain D S J where "B \<in> set (Products db)" "J \<in> set (Jobs db)"
      "m_jobPK B = m_jobID J" "S \<in> set (Sources db)" "m_sourcePK J = m_sourceID S"
      "D \<in> set (ProductDependencies db)" "m_sourceGuid S = m_dependencySourceGuid D"
      "m_subID B = m_dependencySubID D" "m_productPK D = m_productID A"
      unfolding dependsOn_def by blast
    then have "\<exists>J \<in> set (Jobs db). m_jobID J = m_jobPK B
        \<and> (\<exists>S \<in> set (Sources db). m_sourceID S = m_sourcePK J
          \<and> (\<exists>D \<in> set (ProductDependencies db).
               (m_sourceGuid S = m_dependencySourceGuid D \<and> m_subID B = m_dependencySubID D)
               \<and> m_productPK D = m_productID A))"
      by (metis (no_types))
    with \<open>B \<in> set (Products db)\<close> show "B \<in> set (allProductDeps_recursive db A)"
      by (simp add: allProductDeps_recursive_def) blast
  qed
  then show ?thesis by blast
qed

lemma allProductDeps_rows_offset:
  "allProductDeps_rows db offset queue added = drop offset (allProductDeps_rows db 0 queue added)"
proof (induction db offset queue added rule: allProductDeps_rows.induct)
  case (1 db offset added)
  show ?case by simp
next
  case (2 db offset current queue added)
  obtain queue' added' where
    e: "enqueue (allProductDeps_recursive db current) (queue, added) = (queue', added')"
    by (cases "enqueue (allProductDeps_recursive db current) (queue, added)")
  from "2.IH" [OF e [symmetric] refl]
  have "allProductDeps_rows db (offset - 1) queue' added' =
        drop (offset - 1) (allProductDeps_rows db 0 queue' added')" .
  with e show ?case by (cases offset) simp_all
qed

lemma enqueue_new:
  "enqueue rows (queue, added) = (queue', added') \<Longrightarrow>
   \<exists>new. queue' = queue @ new \<and> added' = added @ new \<and> distinct new
         \<and> set new = set rows - set added"
proof (induction rows arbitrary: queue added)
  case Nil
  then show ?case by simp
next
  case (Cons row rows)
  show ?case
  proof (cases "row \<in> set added")
    case True
    with Cons.prems have "enqueue rows (queue, added) = (queue', added')" by simp
    from Cons.IH [OF this] True show ?thesis by auto
  next
    case False
    with Cons.prems have "enqueue rows (queue @ [row], added @ [row]) = (queue', added')"
      by simp
    from Cons.IH [OF this] obtain new where new: "queue' = (queue @ [row]) @ new"
      "added' = (added @ [row]) @ new" "distinct new"
      "set new = set rows - set (added @ [row])" by blast
    then have "queue' = queue @ (row # new) \<and> added' = added @ (row # new)
        \<and> distinct (row # new) \<and> set (row # new) = set (row # rows) - set added"
      using False by auto
    then show ?thesis by blast
  qed
qed


lemma reachable_closed:
  assumes closed: "\<forall>x \<in> set added - set queue. \<forall>y. dependsOn db x y \<longrightarrow> y \<in> set added"
    and path: "(dependsOn db)\<^sup>*\<^sup>* x y"
    and x: "x \<in> set added"
  shows "y \<in> set added \<or> y \<in> reachable db (set queue)"
  using path x
proof (induction rule: converse_rtranclp_induct)
  case base
  then show ?case by simp
next
  case (step x z)
  show ?case
  proof (cases "x \<in> set queue")
    case True
    from step.hyps have "(dependsOn db)\<^sup>*\<^sup>* x y" by simp
    with True show ?thesis by (auto simp: reachable_def)
  next
    case False
    with step.prems closed step.hyps(1) have "z \<in> set added" by blast
    then show ?thesis by (rule step.IH)
  qed
qed

lemma allProductDeps_rows_reachable:
  "offset = 0 \<Longrightarrow> set queue \<subseteq> set added \<Longrightarrow> distinct queue \<Longrightarrow>
   \<forall>x \<in> set added - set queue. \<forall>y. dependsOn db x y \<longrightarrow> y \<in> set added \<Longrightarrow>
   distinct (allProductDeps_rows db offset queue added)
   \<and> set (allProductDeps_rows db offset queue added) =
       set queue \<union> (reachable db (set queue) - set added)"
proof (induction db offset queue added rule: allProductDeps_rows.induct)
  case (1 db offset added)
  show ?case by (simp add: reachable_def)
next
  case (2 db offset c q a)
  obtain q' a' where
    e: "enqueue (allProductDeps_recursive db c) (q, a) = (q', a')"
    by (cases "enqueue (allProductDeps_recursive db c) (q, a)")
  from enqueue_new [OF e] obtain new where q': "q' = q @ new" and a': "a' = a @ new"
    and dnew: "distinct new" and new: "set new = {y. dependsOn db c y} - set a"
    by (auto simp: allProductDeps_recursive_dependsOn)
  from "2.prems"(1) have offset: "offset - 1 = 0" by simp
  from "2.prems"(2) have c: "c \<in> set a" and qa: "set q \<subseteq> set a" by simp_all
  from "2.prems"(3) have cq: "c \<notin> set q" and dq: "distinct q" by simp_all
  note closed = "2.prems"(4)
  have sub': "set q' \<subseteq> set a'" using qa by (auto simp: q' a')
  have dq': "distinct q'" using dq dnew qa new by (auto simp: q')
  have closed': "\<forall>x \<in> set a' - set q'. \<forall>y. dependsOn db x y \<longrightarrow> y \<in> set a'"
  proof (intro ballI allI impI)
    fix x y assume x: "x \<in> set a' - set q'" and xy: "dependsOn db x y"
    from x have xa: "x \<in> set a" "x \<notin> set q" by (auto simp: q' a')
    show "y \<in> set a'"
    proof (cases "x = c")
      case True
      with xy new show ?thesis by (auto simp: a')
    next
      case False
      with xa have "x \<in> set a - set (c # q)" by simp
      with closed xy have "y \<in> set a" by blast
      then show ?thesis by (simp add: a')
    qed
  qed
  from "2.IH" [OF e [symmetric] refl offset sub' dq' closed']
  have IHd: "distinct (allProductDeps_rows db (offset - 1) q' a')"
    and IHs: "set (allProductDeps_rows db (offset - 1) q' a') =
              set q' \<union> (reachable db (set q') - set a')" by simp_all
  have rows: "allProductDeps_rows db offset (c # q) a =
              c # allProductDeps_rows db (offset - 1) q' a'"
    using e "2.prems"(1) by simp
  have cnew: "c \<notin> set new" using c new by auto
  have fresh: "c \<notin> set (allProductDeps_rows db (offset - 1) q' a')"
    unfolding IHs using c cq cnew by (auto simp: q' a')
  have viaNew: "reachable db (set new) \<subseteq> reachable db {c}"
  proof
    fix y assume "y \<in> reachable db (set new)"
    then obtain n where n: "n \<in> set new" and ny: "(dependsOn db)\<^sup>*\<^sup>* n y"
      by (auto simp: reachable_def)
    from n new have "dependsOn db c n" by auto
    from this ny have "(dependsOn db)\<^sup>*\<^sup>* c y" by (rule converse_rtranclp_into_rtranclp)
    then show "y \<in> reachable db {c}" by (simp add: reachable_def)
  qed
  have split: "reachable db (X \<union> Y) = reachable db X \<union> reachable db Y" for X Y
    by (auto simp: reachable_def)
  have self: "X \<subseteq> reachable db X" for X
    by (auto simp: reachable_def)
  have fromC: "reachable db {c} - set a \<subseteq> set new \<union> reachable db (set q')"
  proof
    fix y assume y: "y \<in> reachable db {c} - set a"
    then have path: "(dependsOn db)\<^sup>*\<^sup>* c y" and ya: "y \<notin> set a"
      by (auto simp: reachable_def)
    from ya c have "c \<noteq> y" by auto
    with path obtain z where cz: "dependsOn db c z" and zy: "(dependsOn db)\<^sup>*\<^sup>* z y"
      by (auto elim: converse_rtranclpE)
    from cz new have "z \<in> set a'" by (auto simp: a')
    from reachable_closed [OF closed' zy this] ya
    show "y \<in> set new \<union> reachable db (set q')" by (auto simp: a')
  qed
  have "set q' \<union> (reachable db (set q') - set a') = 
        set q \<union> (reachable db (set (c # q)) - set a)"
  proof
    show "set q' \<union> (reachable db (set q') - set a')
          \<subseteq> set q \<union> (reachable db (set (c # q)) - set a)"
      using viaNew new self [of "set new"] split [of "{c}" "set q"] split [of "set q" "set new"]
      by (auto simp: q' a')
    show "set q \<union> (reachable db (set (c # q)) - set a)
          \<subseteq> set q' \<union> (reachable db (set q') - set a')"
      using fromC split [of "{c}" "set q"] split [of "set q" "set new"] self [of "set new"]
      by (auto simp: q' a')
  qed
  with IHd IHs fresh rows show ?case by auto
qed


lemma filter_key:
  "distinct (map key rows) \<Longrightarrow> row \<in> set rows \<Longrightarrow> [r \<leftarrow> rows. key r = key row] = [row]"
proof (induction rows)
  case Nil
  then show ?case by simp
next
  case (Cons r rows)
  show ?case
  proof (cases "r = row")
    case True
    with Cons.prems have "key row \<notin> key ` set rows" by simp
    then have "\<forall>x \<in> set rows. key x \<noteq> key row" by (auto simp: image_iff)
    then have "[r \<leftarrow> rows. key r = key row] = []" by (simp add: filter_empty_conv)
    with True show ?thesis by simp
  next
    case False
    with Cons.prems have "row \<in> set rows" and "key r \<noteq> key row" by auto
    with Cons show ?thesis by simp
  qed
qed

lemma QUERY_ALL_PRODUCTDEPENDENCIES_STATEMENT_none:
  "\<forall>R \<in> set (Products db). m_productID R \<noteq> productID \<Longrightarrow>
   QUERY_ALL_PRODUCTDEPENDENCIES_STATEMENT db productID = []"
proof -
  assume "\<forall>R \<in> set (Products db). m_productID R \<noteq> productID"
  then have "allProductDeps_initial db productID = []"
    by (simp add: allProductDeps_initial_def filter_empty_conv)
  then show ?thesis by (simp add: QUERY_ALL_PRODUCTDEPENDENCIES_STATEMENT_def)
qed

lemma QUERY_ALL_PRODUCTDEPENDENCIES_STATEMENT_root:
  assumes ids: "distinct (map m_productID (Products db))"
    and root: "R \<in> set (Products db)"
  shows "distinct (QUERY_ALL_PRODUCTDEPENDENCIES_STATEMENT db (m_productID R))
         \<and> set (QUERY_ALL_PRODUCTDEPENDENCIES_STATEMENT db (m_productID R)) =
             {P. P \<noteq> R \<and> (dependsOn db)\<^sup>+\<^sup>+ R P}"
proof -
  have initial: "allProductDeps_initial db (m_productID R) = [R]"
    unfolding allProductDeps_initial_def using ids root by (rule filter_key)
  then have statement: "QUERY_ALL_PRODUCTDEPENDENCIES_STATEMENT db (m_productID R) =
      drop 1 (allProductDeps_rows db 0 [R] [R])"
    using allProductDeps_rows_offset [of db 1 "[R]" "[R]"]
    by (simp add: QUERY_ALL_PRODUCTDEPENDENCIES_STATEMENT_def)
  have "distinct (allProductDeps_rows db 0 [R] [R])
        \<and> set (allProductDeps_rows db 0 [R] [R]) = set [R] \<union> (reachable db (set [R]) - set [R])"
    by (rule allProductDeps_rows_reachable) simp_all
  then have d: "distinct (allProductDeps_rows db 0 [R] [R])"
    and s: "set (allProductDeps_rows db 0 [R] [R]) = {R} \<union> (reachable db {R} - {R})"
    by simp_all
  obtain rest where rows: "allProductDeps_rows db 0 [R] [R] = R # rest"
    by (cases "enqueue (allProductDeps_recursive db R) ([], [R])") simp
  from d have "distinct (R # rest)" unfolding rows .
  then have rest: "distinct rest" "R \<notin> set rest" by simp_all
  from s have "set (R # rest) = {R} \<union> (reachable db {R} - {R})" unfolding rows .
  with rest have "set rest = reachable db {R} - {R}" by auto
  also have "\<dots> = {P. P \<noteq> R \<and> (dependsOn db)\<^sup>+\<^sup>+ R P}"
    by (auto simp: reachable_def dest: rtranclpD tranclp_into_rtranclp)
  finally have "set rest = {P. P \<noteq> R \<and> (dependsOn db)\<^sup>+\<^sup>+ R P}" .
  moreover have "QUERY_ALL_PRODUCTDEPENDENCIES_STATEMENT db (m_productID R) = rest"
    unfolding statement rows by simp
  ultimately show ?thesis using rest by simp
qed

lemma dependsOn_Products:
  "(dependsOn db)\<^sup>+\<^sup>+ R P \<Longrightarrow> P \<in> set (Products db)"
  by (induction rule: tranclp_induct) (simp_all add: dependsOn_def)

lemma QUERY_ALL_PRODUCTDEPENDENCIES_STATEMENT_reachable:
  assumes ids: "distinct (map m_productID (Products db))"
  shows "distinct (map m_productID (QUERY_ALL_PRODUCTDEPENDENCIES_STATEMENT db productID))"
    and "set (QUERY_ALL_PRODUCTDEPENDENCIES_STATEMENT db productID) =
         {P. \<exists>R \<in> set (Products db).
               m_productID R = productID \<and> P \<noteq> R \<and> (dependsOn db)\<^sup>+\<^sup>+ R P}"
proof -
  have inj: "inj_on m_productID (set (Products db))"
    using ids by (simp add: distinct_map)
  have both: "distinct (map m_productID (QUERY_ALL_PRODUCTDEPENDENCIES_STATEMENT db productID))
    \<and> set (QUERY_ALL_PRODUCTDEPENDENCIES_STATEMENT db productID) =
         {P. \<exists>R \<in> set (Products db).
               m_productID R = productID \<and> P \<noteq> R \<and> (dependsOn db)\<^sup>+\<^sup>+ R P}"
  proof (cases "\<exists>R \<in> set (Products db). m_productID R = productID")
    case False
    then have "QUERY_ALL_PRODUCTDEPENDENCIES_STATEMENT db productID = []"
      by (intro QUERY_ALL_PRODUCTDEPENDENCIES_STATEMENT_none) blast
    with False show ?thesis by auto
  next
    case True
    then obtain R where R: "R \<in> set (Products db)" and id: "m_productID R = productID"
      by blast
    from QUERY_ALL_PRODUCTDEPENDENCIES_STATEMENT_root [OF ids R] id
    have d: "distinct (QUERY_ALL_PRODUCTDEPENDENCIES_STATEMENT db productID)"
      and s: "set (QUERY_ALL_PRODUCTDEPENDENCIES_STATEMENT db productID) =
              {P. P \<noteq> R \<and> (dependsOn db)\<^sup>+\<^sup>+ R P}" by simp_all
    from s have "set (QUERY_ALL_PRODUCTDEPENDENCIES_STATEMENT db productID)
                 \<subseteq> set (Products db)"
      by (auto dest: dependsOn_Products)
    with inj have "inj_on m_productID (set (QUERY_ALL_PRODUCTDEPENDENCIES_STATEMENT db productID))"
      by (rule inj_on_subset)
    with d have "distinct (map m_productID (QUERY_ALL_PRODUCTDEPENDENCIES_STATEMENT db productID))"
      by (simp add: distinct_map)
    moreover have "R' = R" if "R' \<in> set (Products db)" "m_productID R' = productID" for R'
      using inj that R id by (auto dest: inj_onD)
    with R id have "{P. \<exists>R \<in> set (Products db).
               m_productID R = productID \<and> P \<noteq> R \<and> (dependsOn db)\<^sup>+\<^sup>+ R P} =
          {P. P \<noteq> R \<and> (dependsOn db)\<^sup>+\<^sup>+ R P}"
      by blast
    ultimately show ?thesis using s by simp
  qed
  from both show "distinct (map m_productID (QUERY_ALL_PRODUCTDEPENDENCIES_STATEMENT db productID))"
    by (rule conjunct1)
  from both show "set (QUERY_ALL_PRODUCTDEPENDENCIES_STATEMENT db productID) =
         {P. \<exists>R \<in> set (Products db).
               m_productID R = productID \<and> P \<noteq> R \<and> (dependsOn db)\<^sup>+\<^sup>+ R P}"
    by (rule conjunct2)
qed

lemma GetProductResult_while_prefix:
  "\<exists>k. fst (snd (GetProductResult_while (recording handler) CreateNull None Any
       (map (Some \<circ> productColumnsOnly) rows) Done v saved (seen, s))) = seen @ take k rows"
proof (induction rows arbitrary: v saved seen s)
  case Nil
  show ?case by simp
next
  case (Cons row rows)
  obtain sk sg ss where saved: "saved = (sk, sg, ss)" by (cases saved)
  have fetch: "productFetch (productColumnsOnly row) = Some row"
    by (simp add: productColumnsOnly_def)
  obtain proceed s' where h: "handler row s = (proceed, s')" by (cases "handler row s")
  show ?case
  proof (cases proceed)
    case True
    from Cons.IH [of True "(sk, sg, ss)" "seen @ [row]" s'] obtain k where
      "fst (snd (GetProductResult_while (recording handler) CreateNull None Any
         (map (Some \<circ> productColumnsOnly) rows) Done True (sk, sg, ss) (seen @ [row], s'))) =
       (seen @ [row]) @ take k rows" ..
    with h True have "fst (snd (GetProductResult_while (recording handler) CreateNull None Any
         (map (Some \<circ> productColumnsOnly) (row # rows)) Done v saved (seen, s))) =
         seen @ take (Suc k) (row # rows)"
      by (simp add: recording_def saved fetch)
    then show ?thesis ..
  next
    case False
    with h have "fst (snd (GetProductResult_while (recording handler) CreateNull None Any
         (map (Some \<circ> productColumnsOnly) (row # rows)) Done v saved (seen, s))) =
         seen @ take (Suc 0) (row # rows)"
      by (simp add: recording_def saved fetch)
    then show ?thesis ..
  qed
qed

lemma QueryAllProductDependencies_prefix:
  "\<exists>k. delivered (QueryAllProductDependencies (connect db) productID (recording handler) ([], t))
        = take k (QUERY_ALL_PRODUCTDEPENDENCIES_STATEMENT db productID)"
  using GetProductResult_while_prefix [of handler
      "QUERY_ALL_PRODUCTDEPENDENCIES_STATEMENT db productID" _ _ "[]" t]
  by (simp add: delivered_def QueryAllProductDependencies_def connect_def answered_def
      BindAndQuery_def GetProductResultSimple_def GetProductResult_def)

subsection \<open>The claims\<close>

text \<open>
  C3, as the code has it. A query method that hands the caller's handler straight to a
  row loop (\<^verbatim>\<open>GetResult\<close>, \<^verbatim>\<open>GetJobResult\<close>, \<^verbatim>\<open>GetProductResult\<close>,
  \<^verbatim>\<open>GetCombinedResult\<close>, and the loop of \<^verbatim>\<open>QueryBuilderInfoTable\<close>) treats
  "no rows" as success: on a statement with no row and no error the handler is not
  invoked and the result is true; and whenever every row can be fetched and no step
  reports an error, the result is true, so false is returned only for a store error.
  The scan-folder projections and the job info projections are different: they return
  \<^verbatim>\<open>found && succeeded\<close>, so a call that showed the handler no entry returns false,
  store error or not.
\<close>

theorem not_found_results:
  "GetResult (Statement [] Done) (recording h1) ([], s1) = (True, ([], s1))
   \<and> GetJobResult (Statement [] Done) (recording h2) builderGuid jobKey status ([], s2)
       = (True, ([], s2))
   \<and> GetProductResult (Statement [] Done) (recording h3) builderGuid jobKey status ([], s3)
       = (True, ([], s3))
   \<and> GetCombinedResult conn (Statement [] Done) (recording h4) builderGuid jobKey status
         includeLegacySubIDs ([], s4)
       = (True, ([], s4))
   \<and> (s_queryBuilderInfoTable conn = Some (Statement [] Done) \<longrightarrow>
        QueryBuilderInfoTable conn (recording h5) ([], s5) = (True, ([], s5)))
   \<and> fst (GetResult (Statement (map Some rows1) Done) handler1 t1)
   \<and> fst (GetJobResult (Statement (map Some rows2) Done) handler2 builderGuid jobKey status t2)
   \<and> (list_all (fetches builderGuid jobKey status) rows3 \<longrightarrow>
        fst (GetProductResult (Statement (map Some rows3) Done) handler3
               builderGuid jobKey status t3))
   \<and> fst (GetCombinedResult conn (Statement (map Some rows4) Done) handler4
             builderGuid jobKey status includeLegacySubIDs t4)
   \<and> (s_queryBuilderInfoTable conn = Some (Statement (map Some rows5) Done) \<longrightarrow>
        fst (QueryBuilderInfoTable conn handler5 t5))
   \<and> falseWhenEmpty (QueryScanFolderBySourceID conn sourceID (recording h6) ([], s6))
   \<and> falseWhenEmpty (QueryScanFolderByJobID conn jobID (recording h6) ([], s6))
   \<and> falseWhenEmpty (QueryScanFolderByProductID conn productID (recording h6) ([], s6))
   \<and> falseWhenEmpty (QueryJobInfoByJobID conn jobID (recording h7) ([], s7))
   \<and> falseWhenEmpty (QueryJobInfoByJobRunKey conn jobRunKey (recording h7) ([], s7))
   \<and> falseWhenEmpty (QueryJobInfoByJobKey conn jobKeyText (recording h7) ([], s7))
   \<and> falseWhenEmpty (QueryJobInfoBySourceName conn sourceName (recording h7)
         builderGuid jobKey platform status ([], s7))"
proof -
  have builder0: "QueryBuilderInfoTable conn (recording h5) ([], s5) = (True, ([], s5))"
    if "s_queryBuilderInfoTable conn = Some (Statement [] Done)"
    using that by (simp add: QueryBuilderInfoTable_def)
  have builder: "fst (QueryBuilderInfoTable conn handler5 t5)"
    if "s_queryBuilderInfoTable conn = Some (Statement (map Some rows5) Done)"
  proof (cases rows5)
    case Nil
    with that show ?thesis by (simp add: QueryBuilderInfoTable_def)
  next
    case (Cons r rs)
    with that QueryBuilderInfoTable_while_healthy [of handler5 rows5 t5] show ?thesis
      by (simp add: QueryBuilderInfoTable_def del: QueryBuilderInfoTable_while.simps)
  qed
  have product: "fst (GetProductResult (Statement (map Some rows3) Done) handler3
               builderGuid jobKey status t3)"
    if "list_all (fetches builderGuid jobKey status) rows3"
    using that by (simp add: GetProductResult_def GetProductResult_while_healthy)
  show ?thesis
    by (intro conjI impI zero_rows builder0 builder product
        QueryScanFolderBySourceID_empty QueryScanFolderByJobID_empty
        QueryScanFolderByProductID_empty QueryJobInfoByJobID_empty
        QueryJobInfoByJobRunKey_empty QueryJobInfoByJobKey_empty QueryJobInfoBySourceName_empty)
       (simp_all add: GetResult_def GetResult_while_healthy GetJobResult_def
          GetJobResult_while_healthy GetCombinedResult_def GetCombinedResult_while_healthy)
qed

text \<open>
  The claim as written fails for the scan-folder projections: on a healthy store with
  empty tables, \<^verbatim>\<open>QueryScanFolderBySourceID\<close> matches zero rows, invokes the handler
  zero times, and returns false.
\<close>

theorem not_found_counterexample:
  "QueryScanFolderBySourceID (connect emptyDatabase) 1 (recording (keepWith observe)) ([], ())
   = (False, ([], ()))"
  by code_simp

theorem not_found_witness:
  "QueryBuilderInfoTable (connect emptyDatabase) (recording (keepWith observe)) ([], ())
     = (True, ([], ()))
   \<and> list_all (fetches CreateNull None Any) [productColumnsOnly (exampleProduct 1 2 ''pc/b.dds'')]
   \<and> fst (GetProductResult
        (Statement (map Some [productColumnsOnly (exampleProduct 1 2 ''pc/b.dds'')]) Done)
        (stopWith observe) CreateNull None Any ())
   \<and> fst (QueryBuilderInfoTable (connect emptyDatabase) (stopWith observe) ())
   \<and> falseWhenEmpty (QueryScanFolderBySourceID (connect emptyDatabase) 1
        (recording (keepWith observe)) ([], ()))"
proof -
  have table: "s_queryBuilderInfoTable (connect emptyDatabase) = Some (Statement [] Done)"
    by code_simp
  then have table': "s_queryBuilderInfoTable (connect emptyDatabase) =
      Some (Statement (map Some []) Done)"
    by simp
  have columns: "list_all (fetches CreateNull None Any)
      [productColumnsOnly (exampleProduct 1 2 ''pc/b.dds'')]"
    by (simp add: fetches_def productColumnsOnly_def)
  note all = not_found_results [where conn = "connect emptyDatabase"
      and ?h5.0 = "keepWith observe" and ?s5.0 = "()"
      and builderGuid = CreateNull and jobKey = None and status = Any
      and ?rows3.0 = "[productColumnsOnly (exampleProduct 1 2 ''pc/b.dds'')]"
      and ?handler3.0 = "stopWith observe" and ?t3.0 = "()"
      and ?rows5.0 = "[]" and ?handler5.0 = "stopWith observe" and ?t5.0 = "()"
      and sourceID = 1 and ?h6.0 = "keepWith observe" and ?s6.0 = "()"]
  note builder0 = all [THEN conjunct2, THEN conjunct2, THEN conjunct2, THEN conjunct2,
      THEN conjunct1, rule_format, OF table]
  note product = all [THEN conjunct2, THEN conjunct2, THEN conjunct2, THEN conjunct2,
      THEN conjunct2, THEN conjunct2, THEN conjunct2, THEN conjunct1, rule_format, OF columns]
  note builder = all [THEN conjunct2, THEN conjunct2, THEN conjunct2, THEN conjunct2,
      THEN conjunct2, THEN conjunct2, THEN conjunct2, THEN conjunct2, THEN conjunct2,
      THEN conjunct1, rule_format, OF table']
  note folder = all [THEN conjunct2, THEN conjunct2, THEN conjunct2, THEN conjunct2,
      THEN conjunct2, THEN conjunct2, THEN conjunct2, THEN conjunct2, THEN conjunct2,
      THEN conjunct2, THEN conjunct1]
  from builder0 columns product builder folder show ?thesis by blast
qed

text \<open>
  Early stop, family by family. A handler that answers false on its first invocation is
  shown exactly one entry and the call returns true. For \<^verbatim>\<open>GetResult\<close> this is the first
  row, whatever follows it: the later rows are never stepped to or fetched (here they
  may even be unreadable or end in an error). For every row loop, for
  \<^verbatim>\<open>QueryBuilderInfoTable\<close>, the scan-folder projections and
  \<^verbatim>\<open>QueryJobInfoByJobID\<close>, \<^verbatim>\<open>QueryJobInfoByJobRunKey\<close> and
  \<^verbatim>\<open>QueryJobInfoByJobKey\<close>, the handler is shown no entry (none matched, or the store
  failed first) or exactly one, and then the call returns true. \<^verbatim>\<open>QuerySourceByJobID\<close>
  and \<^verbatim>\<open>QuerySourceByProductID\<close> stop after one entry whatever the handler answers.
\<close>

theorem early_stop_delivers_one:
  "GetResult (Statement (Some entry # rows) e) (recording (stopWith f1)) ([], s1)
     = (True, ([entry], f1 entry s1))
   \<and> deliveredOnce (GetResult statement1 (recording (stopWith f1)) ([], s1))
   \<and> deliveredOnce (GetJobResult statement2 (recording (stopWith f2))
                      builderGuid jobKey status ([], s2))
   \<and> deliveredOnce (GetProductResult statement3 (recording (stopWith f3))
                      builderGuid jobKey status ([], s3))
   \<and> deliveredOnce (GetCombinedResult conn statement4 (recording (stopWith f4))
                      builderGuid jobKey status includeLegacySubIDs ([], s4))
   \<and> deliveredOnce (QueryBuilderInfoTable conn (recording (stopWith f5)) ([], s5))
   \<and> (s_queryCombinedByJobid conn jobID = Some (Statement (Some combined # rows4) e4) \<longrightarrow>
        QuerySourceByJobID conn jobID (recording handler) ([], s6)
          = (True, ([sourceColumns combined], snd (handler (sourceColumns combined) s6))))
   \<and> deliveredOnce (QuerySourceByJobID conn jobID (recording handler) ([], s6))
   \<and> deliveredOnce (QuerySourceByProductID conn productID (recording handler) ([], s6))
   \<and> deliveredOnce (QueryScanFolderBySourceID conn sourceID (recording (stopWith f7)) ([], s7))
   \<and> deliveredOnce (QueryScanFolderByJobID conn jobID (recording (stopWith f7)) ([], s7))
   \<and> deliveredOnce (QueryScanFolderByProductID conn productID (recording (stopWith f7)) ([], s7))
   \<and> deliveredOnce (QueryJobInfoByJobID conn jobID (recording (stopWith f8)) ([], s8))
   \<and> deliveredOnce (QueryJobInfoByJobRunKey conn jobRunKey (recording (stopWith f8)) ([], s8))
   \<and> deliveredOnce (QueryJobInfoByJobKey conn jobKeyText (recording (stopWith f8)) ([], s8))"
  by (intro conjI impI GetResult_stop_first GetResult_stop GetJobResult_stop
      GetProductResult_stop GetCombinedResult_stop QueryBuilderInfoTable_stop
      QuerySourceByJobID_first QuerySourceByJobID_once QuerySourceByProductID_once
      QueryScanFolderBySourceID_stop QueryScanFolderByJobID_stop QueryScanFolderByProductID_stop
      QueryJobInfoByJobID_stop QueryJobInfoByJobRunKey_stop QueryJobInfoByJobKey_stop)

theorem early_stop_witness:
  "GetResult (Statement [Some (exampleJob 1 1 Completed), None] Error)
      (recording (stopWith observe)) ([], ())
     = (True, ([exampleJob 1 1 Completed], ()))
   \<and> QuerySourceByJobID (connect exampleDatabase) 1 (recording (keepWith observe)) ([], ())
     = (True, ([exampleSource 1 1 ''a.tif'' 11], ()))
   \<and> deliveredOnce (QueryJobInfoByJobKey (connect exampleDatabase) ''tiff''
        (recording (stopWith observe)) ([], ()))"
proof -
  have query: "s_queryCombinedByJobid (connect exampleDatabase) 1 =
      Some (Statement
        (Some (combinedRow (exampleFolder 1 ''game'') (exampleSource 1 1 ''a.tif'' 11)
                 (exampleJob 1 1 Completed) (exampleProduct 2 1 ''pc/a.dds'')) # []) Done)"
    by code_simp
  note all = early_stop_delivers_one [where entry = "exampleJob 1 1 Completed" and rows = "[None]"
        and e = Error and ?f1.0 = observe and ?s1.0 = "()"
        and conn = "connect exampleDatabase" and jobID = 1 and handler = "keepWith observe"
        and ?s6.0 = "()" and ?f8.0 = observe and ?s8.0 = "()" and jobKeyText = "''tiff''"
        and combined = "combinedRow (exampleFolder 1 ''game'') (exampleSource 1 1 ''a.tif'' 11)
                 (exampleJob 1 1 Completed) (exampleProduct 2 1 ''pc/a.dds'')"
        and ?rows4.0 = "[]" and ?e4.0 = Done]
  note first = all [THEN conjunct1]
  note source = all [THEN conjunct2, THEN conjunct2, THEN conjunct2, THEN conjunct2,
      THEN conjunct2, THEN conjunct2, THEN conjunct1, rule_format, OF query]
  note jobKey = all [THEN conjunct2, THEN conjunct2, THEN conjunct2, THEN conjunct2,
      THEN conjunct2, THEN conjunct2, THEN conjunct2, THEN conjunct2, THEN conjunct2,
      THEN conjunct2, THEN conjunct2, THEN conjunct2, THEN conjunct2, THEN conjunct2]
  from first source jobKey show ?thesis
    by (simp add: combinedRow_def observe_def keepWith_def)
qed

text \<open>
  C4. Stopping at the first entry is not an error: the handler has been shown exactly
  one entry and the call returns true. \<^verbatim>\<open>QueryJobInfoBySourceName\<close> breaks this. For
  the source d.tif, whose only job failed and has no product, the handler is shown one
  job info and stops, and the call returns false: \<^verbatim>\<open>found\<close> is set only by the
  scan-folder lookup, which goes through the products and finds nothing, and the job
  info is handed over all the same. \<^verbatim>\<open>QueryJobInfoByJobKey\<close> makes the same lookup but
  returns before the handler when it finds nothing (\<^verbatim>\<open>if (!found) return false\<close>), so
  on a store with that job alone it returns false without having shown an entry.
\<close>

theorem job_info_by_source_name_early_stop:
  "QueryJobInfoBySourceName (connect exampleDatabase) ''d.tif'' (recording (stopWith observe))
     CreateNull None None Any ([], ())
   = (False,
      ([PopulateJobInfo (JobInfo_default\<lparr>m_sourceFile := ''d.tif''\<rparr>) (exampleJob 4 4 Failed)],
       ()))
   \<and> QueryJobInfoByJobKey (connect (exampleDatabase\<lparr>Jobs := [exampleJob 4 4 Failed]\<rparr>)) ''tiff''
       (recording (stopWith observe)) ([], ())
     = (False, ([], ()))"
  by code_simp

text \<open>Read off the call on d.tif: exactly one entry was handed over, and the result is
  false.\<close>

theorem job_info_by_source_name_early_stop_witness:
  "length (delivered (QueryJobInfoBySourceName (connect exampleDatabase) ''d.tif''
      (recording (stopWith observe)) CreateNull None None Any ([], ()))) = 1
   \<and> fst (QueryJobInfoBySourceName (connect exampleDatabase) ''d.tif''
      (recording (stopWith observe)) CreateNull None None Any ([], ())) = False"
  using job_info_by_source_name_early_stop by (simp add: delivered_def)

text \<open>
  C7. On every state of the tables, \<^verbatim>\<open>QueryUnresolvedProductDependencies\<close> returns
  true and shows a handler that asks for every row exactly the rows of
  \<^verbatim>\<open>ProductDependencies\<close> whose \<^verbatim>\<open>UnresolvedPath\<close> is not the empty string, in
  table order; and whatever the handler answers, it is never shown a row whose
  \<^verbatim>\<open>UnresolvedPath\<close> is empty.
\<close>

theorem unresolved_product_dependencies:
  "QueryUnresolvedProductDependencies (connect db) (recording (keepWith f)) ([], s)
     = (True,
        ([D \<leftarrow> ProductDependencies db. m_unresolvedPath D \<noteq> []],
         fold f [D \<leftarrow> ProductDependencies db. m_unresolvedPath D \<noteq> []] s))
   \<and> list_all (\<lambda>D. D \<in> set (ProductDependencies db) \<and> m_unresolvedPath D \<noteq> [])
        (delivered (QueryUnresolvedProductDependencies (connect db) (recording handler) ([], t)))"
proof -
  obtain k where "delivered
      (QueryUnresolvedProductDependencies (connect db) (recording handler) ([], t)) =
      take k [D \<leftarrow> ProductDependencies db. m_unresolvedPath D \<noteq> []]"
    using GetResult_while_prefix [of handler
        "[D \<leftarrow> ProductDependencies db. m_unresolvedPath D \<noteq> []]" _ "[]" t]
    by (auto simp: delivered_def QueryUnresolvedProductDependencies_def answered_def
        BindAndQuery_def GetResult_def GET_UNRESOLVED_PRODUCT_DEPENDENCIES_STATEMENT_def)
  then have "list_all (\<lambda>D. D \<in> set (ProductDependencies db) \<and> m_unresolvedPath D \<noteq> [])
        (delivered (QueryUnresolvedProductDependencies (connect db) (recording handler) ([], t)))"
    by (auto simp: list_all_iff dest: in_set_takeD)
  then show ?thesis
    by (simp add: QueryUnresolvedProductDependencies_keep)
qed

theorem unresolved_product_dependencies_witness:
  "QueryUnresolvedProductDependencies (connect exampleDatabase) (recording (keepWith observe))
     ([], ())
   = (True, ([exampleDependency 4 3 0 ''textures/missing.dds''], ()))"
proof -
  have "[D \<leftarrow> ProductDependencies exampleDatabase. m_unresolvedPath D \<noteq> []] =
      [exampleDependency 4 3 0 ''textures/missing.dds'']"
    by code_simp
  with unresolved_product_dependencies [of exampleDatabase observe "()", THEN conjunct1]
  show ?thesis by (simp add: observe_def)
qed





text \<open>
  C10. For every connection, id \<open>N\<close> and handler, \<^verbatim>\<open>QueryScanFolderByProductID\<close>
  does what \<^verbatim>\<open>QueryScanFolderBySourceID\<close> does: both run
  \<^verbatim>\<open>QueryCombinedBySourceID\<close> with \<open>N\<close> bound to \<^verbatim>\<open>Sources.SourceID\<close>. On a
  healthy store \<^verbatim>\<open>QueryScanFolderByProductID\<close> therefore delivers the scan folders of
  the rows that \<^verbatim>\<open>QUERY_COMBINED_BY_SOURCEID_STATEMENT\<close> selects for the source with
  id \<open>N\<close>. (In the example store that is the folder game for \<open>N = 1\<close>, while the
  product with id 1 lies in the folder engine.)
\<close>

theorem scan_folder_by_product_id_is_by_source_id:
  "QueryScanFolderByProductID conn N handler s = QueryScanFolderBySourceID conn N handler s
   \<and> QueryScanFolderByProductID (connect db) N (recording (keepWith f)) ([], t)
     = (QUERY_COMBINED_BY_SOURCEID_STATEMENT db N \<noteq> [],
        (map scanFolderColumns (QUERY_COMBINED_BY_SOURCEID_STATEMENT db N),
         fold f (map scanFolderColumns (QUERY_COMBINED_BY_SOURCEID_STATEMENT db N)) t))"
proof -
  have same: "QueryScanFolderByProductID conn N handler s =
      QueryScanFolderBySourceID conn N handler s" for conn :: Connection and N
      and handler :: "(ScanFolderDatabaseEntry, 'x) handler" and s
    by (simp add: QueryScanFolderByProductID_def QueryScanFolderBySourceID_def)
  show ?thesis
    by (simp add: same QueryScanFolderBySourceID_keep)
qed

theorem scan_folder_by_product_id_witness:
  "QueryScanFolderByProductID (connect exampleDatabase) 1 (recording (keepWith observe)) ([], ())
     = (True, ([exampleFolder 1 ''game''], ()))
   \<and> QueryScanFolderBySourceID (connect exampleDatabase) 1 (recording (keepWith observe)) ([], ())
     = (True, ([exampleFolder 1 ''game''], ()))
   \<and> map scanFolderColumns (QUERY_COMBINED_BY_SOURCEID_STATEMENT exampleDatabase 1)
     = [exampleFolder 1 ''game'']
   \<and> map scanFolderColumns (QUERY_COMBINED_BY_PRODUCTID_STATEMENT exampleDatabase 1)
     = [exampleFolder 2 ''engine'']"
proof -
  have bySource: "map scanFolderColumns (QUERY_COMBINED_BY_SOURCEID_STATEMENT exampleDatabase 1)
     = [exampleFolder 1 ''game'']"
    by code_simp
  have byProduct: "map scanFolderColumns (QUERY_COMBINED_BY_PRODUCTID_STATEMENT exampleDatabase 1)
     = [exampleFolder 2 ''engine'']"
    by code_simp
  from bySource have rows: "QUERY_COMBINED_BY_SOURCEID_STATEMENT exampleDatabase 1 \<noteq> []"
    by auto
  note all = scan_folder_by_product_id_is_by_source_id
      [of "connect exampleDatabase" 1 "recording (keepWith observe)" "([], ())"
          exampleDatabase observe "()"]
  from all [THEN conjunct2] bySource rows
  have product: "QueryScanFolderByProductID (connect exampleDatabase) 1
      (recording (keepWith observe)) ([], ()) = (True, ([exampleFolder 1 ''game''], ()))"
    by (simp add: observe_def)
  with all [THEN conjunct1]
  have source: "QueryScanFolderBySourceID (connect exampleDatabase) 1
      (recording (keepWith observe)) ([], ()) = (True, ([exampleFolder 1 ''game''], ()))"
    by simp
  from product source bySource byProduct show ?thesis by blast
qed



text \<open>
  C6. A call of \<^verbatim>\<open>OpenDatabase\<close> on a closed connection returns false without
  having called the store's \<^verbatim>\<open>Open\<close> exactly when a precondition is violated:
  read-only was requested and the file does not exist, or read-write was requested and
  the file exists but is not writable. In these cases the connection stays as the
  constructor made it; in every other case the store's \<^verbatim>\<open>Open\<close> is called exactly
  once, so nothing is retried.
\<close>

theorem open_preconditions:
  "((\<not> fst (OpenDatabase StripFullName IsReadOnly CurrentDatabaseVersion indeterminate
              AssetDatabaseConnection_new world)
     \<and> filter isOpenStore
          (calls (snd (snd (OpenDatabase StripFullName IsReadOnly CurrentDatabaseVersion
                              indeterminate AssetDatabaseConnection_new world))))
        = filter isOpenStore (calls world))
    = violatesPrecondition IsReadOnly world)
   \<and> (if violatesPrecondition IsReadOnly world
       then fst (snd (OpenDatabase StripFullName IsReadOnly CurrentDatabaseVersion indeterminate
                        AssetDatabaseConnection_new world)) = AssetDatabaseConnection_new
       else filter isOpenStore
              (calls (snd (snd (OpenDatabase StripFullName IsReadOnly CurrentDatabaseVersion
                                  indeterminate AssetDatabaseConnection_new world))))
            = filter isOpenStore (calls world)
              @ [OpenStore (GetAssetDatabaseFilePath world) IsReadOnly])"
proof (cases "violatesPrecondition IsReadOnly world")
  case True
  then show ?thesis
    by (auto simp: OpenDatabase_def Let_def violatesPrecondition_def)
next
  case False
  show ?thesis
  proof (cases "Open world (GetAssetDatabaseFilePath world) IsReadOnly")
    case None
    with False show ?thesis
      by (auto simp: OpenDatabase_def Let_def violatesPrecondition_def)
  next
    case (Some connection)
    with False show ?thesis
      by (auto simp: OpenDatabase_def Let_def violatesPrecondition_def CloseDatabase_calls
          split: prod.splits)
  qed
qed

theorem open_preconditions_witness:
  "violatesPrecondition True (exampleWorld\<lparr>Exists := \<lambda>path. False\<rparr>)
   \<and> \<not> fst (OpenDatabase noFolder True (Version 20) DatabaseDoesNotExist
              AssetDatabaseConnection_new (exampleWorld\<lparr>Exists := \<lambda>path. False\<rparr>))
   \<and> filter isOpenStore
        (calls (snd (snd (OpenDatabase noFolder True (Version 20) DatabaseDoesNotExist
           AssetDatabaseConnection_new (exampleWorld\<lparr>Exists := \<lambda>path. False\<rparr>))))) = []
   \<and> fst (snd (OpenDatabase noFolder True (Version 20) DatabaseDoesNotExist
              AssetDatabaseConnection_new (exampleWorld\<lparr>Exists := \<lambda>path. False\<rparr>)))
       = AssetDatabaseConnection_new"
proof -
  have violated: "violatesPrecondition True (exampleWorld\<lparr>Exists := \<lambda>path. False\<rparr>)"
    by (simp add: violatesPrecondition_def)
  have before: "filter isOpenStore (calls (exampleWorld\<lparr>Exists := \<lambda>path. False\<rparr>)) = []"
    by (simp add: exampleWorld_def)
  from open_preconditions [of noFolder True "Version 20" DatabaseDoesNotExist
      "exampleWorld\<lparr>Exists := \<lambda>path. False\<rparr>"] violated before
  show ?thesis by simp
qed

text \<open>
  C2, as the code has it. \<^verbatim>\<open>GetLikeActualSearchTerm\<close> escapes \<^verbatim>\<open>%\<close> and \<^verbatim>\<open>_\<close> with the
  pipe and leaves a pipe of the literal as it is, so the guarantee is for literals
  without a pipe. For such a literal and a pattern used with \<^verbatim>\<open>ESCAPE '|'\<close>: under
  \<^verbatim>\<open>StartsWith\<close> the pattern matches exactly the strings that begin with the literal,
  under \<^verbatim>\<open>EndsWith\<close> exactly those that end with it, under \<^verbatim>\<open>Matches\<close> exactly those
  that contain it, where the literal's characters, \<^verbatim>\<open>%\<close> and \<^verbatim>\<open>_\<close> included, are
  compared one by one with the characters of the string by the store's comparison of
  characters. \<^verbatim>\<open>Raw\<close> leaves the literal unchanged.
\<close>

theorem like_search_term:
  "CHR ''|'' \<notin> set literal \<Longrightarrow>
   LIKE same (CHR ''|'') (GetLikeActualSearchTerm literal StartsWith) str =
     (\<exists>found after. str = found @ after \<and> list_all2 same literal found)
   \<and> LIKE same (CHR ''|'') (GetLikeActualSearchTerm literal EndsWith) str =
     (\<exists>before found. str = before @ found \<and> list_all2 same literal found)
   \<and> LIKE same (CHR ''|'') (GetLikeActualSearchTerm literal Matches) str =
     (\<exists>before found after. str = before @ found @ after \<and> list_all2 same literal found)
   \<and> GetLikeActualSearchTerm literal Raw = literal"
  using LIKE_modes [of literal same str]
  by (simp add: GetLikeActualSearchTerm_def)

text \<open>
  C2 as stated fails for a literal that contains the pipe: the search term for
  \<^verbatim>\<open>a|b\<close> under \<^verbatim>\<open>StartsWith\<close> is \<^verbatim>\<open>a|b%\<close>, in which the pipe escapes the \<^verbatim>\<open>b\<close>; it
  matches \<^verbatim>\<open>abc\<close>, where the literal does not occur, and does not match \<^verbatim>\<open>a|bc\<close>,
  which begins with the literal.
\<close>

theorem like_search_term_counterexample:
  "LIKE (=) (CHR ''|'') (GetLikeActualSearchTerm ''a|b'' StartsWith) ''abc''
   \<and> \<not> LIKE (=) (CHR ''|'') (GetLikeActualSearchTerm ''a|b'' StartsWith) ''a|bc''"
  by (simp add: GetLikeActualSearchTerm_def Replace_def Append_def)

text \<open>
  The literal \<^verbatim>\<open>100%_done\<close>: as a raw pattern it matches \<^verbatim>\<open>100Xdone\<close>; its search
  term matches that string under none of the three modes, and under \<^verbatim>\<open>Matches\<close> it
  matches \<^verbatim>\<open>a100%_done.txt\<close>.
\<close>

theorem like_search_term_witness:
  "CHR ''|'' \<notin> set ''100%_done''
   \<and> LIKE (=) (CHR ''|'') (GetLikeActualSearchTerm ''100%_done'' Raw) ''100Xdone''
   \<and> \<not> LIKE (=) (CHR ''|'') (GetLikeActualSearchTerm ''100%_done'' StartsWith) ''100Xdone''
   \<and> \<not> LIKE (=) (CHR ''|'') (GetLikeActualSearchTerm ''100%_done'' EndsWith) ''100Xdone''
   \<and> \<not> LIKE (=) (CHR ''|'') (GetLikeActualSearchTerm ''100%_done'' Matches) ''100Xdone''
   \<and> LIKE (=) (CHR ''|'') (GetLikeActualSearchTerm ''100%_done'' Matches) ''a100%_done.txt''"
proof -
  have pipe: "CHR ''|'' \<notin> set ''100%_done''" by simp
  note modes = like_search_term [OF pipe, where same = "(=)"]
  have short: "\<not> (\<exists>before found after.
      ''100Xdone'' = before @ found @ after \<and> list_all2 (=) ''100%_done'' found)"
  proof
    assume "\<exists>before found after.
      ''100Xdone'' = before @ found @ after \<and> list_all2 (=) ''100%_done'' found"
    then obtain before found after where split: "''100Xdone'' = before @ found @ after"
      and found: "list_all2 (=) ''100%_done'' found" by blast
    from found have "length found = 9" by (auto dest: list_all2_lengthD)
    moreover from split have "length ''100Xdone'' = length (before @ found @ after)"
      by (rule arg_cong)
    ultimately show False by simp
  qed
  from short have starts: "\<not> (\<exists>found after.
      ''100Xdone'' = found @ after \<and> list_all2 (=) ''100%_done'' found)"
    by (metis append_Nil)
  from short have ends: "\<not> (\<exists>before found.
      ''100Xdone'' = before @ found \<and> list_all2 (=) ''100%_done'' found)"
    by (metis append_Nil2)
  have "''a100%_done.txt'' = ''a'' @ ''100%_done'' @ ''.txt''
        \<and> list_all2 (=) ''100%_done'' ''100%_done''"
    by (simp add: list.rel_eq)
  then have contains: "\<exists>before found after.
      ''a100%_done.txt'' = before @ found @ after \<and> list_all2 (=) ''100%_done'' found"
    by blast
  have raw: "LIKE (=) (CHR ''|'') (GetLikeActualSearchTerm ''100%_done'' Raw) ''100Xdone''"
    by (simp add: GetLikeActualSearchTerm_def)
  from modes [of "''100Xdone''"] modes [of "''a100%_done.txt''"] starts ends short contains
    pipe raw
  show ?thesis by blast
qed

text \<open>
  C1. In a database whose products have distinct ids (\<^verbatim>\<open>ProductID\<close> is the key of
  \<^verbatim>\<open>Products\<close>), whatever the dependency rows are, cycles included,
  \<^verbatim>\<open>QueryAllProductDependencies\<close> returns, and for a handler that asks for every row it
  returns true having shown the handler exactly the products that the root product
  reaches in one or more steps of \<open>dependsOn\<close>, the root itself left out, no product id
  twice. A handler that stops early has been shown the first rows of that same sequence.
  That the call returns for every database is the termination of \<open>allProductDeps_rows\<close>.
\<close>

theorem all_product_dependencies:
  "distinct (map m_productID (Products db)) \<Longrightarrow>
   fst (QueryAllProductDependencies (connect db) productID (recording (keepWith f)) ([], s))
   \<and> distinct (map m_productID (delivered
         (QueryAllProductDependencies (connect db) productID (recording (keepWith f)) ([], s))))
   \<and> set (delivered
         (QueryAllProductDependencies (connect db) productID (recording (keepWith f)) ([], s))) =
       {P. \<exists>R \<in> set (Products db).
             m_productID R = productID \<and> P \<noteq> R \<and> (dependsOn db)\<^sup>+\<^sup>+ R P}
   \<and> (\<exists>k. delivered
         (QueryAllProductDependencies (connect db) productID (recording handler) ([], t)) =
       take k (delivered
         (QueryAllProductDependencies (connect db) productID (recording (keepWith f)) ([], s))))"
  using QUERY_ALL_PRODUCTDEPENDENCIES_STATEMENT_reachable [of db productID]
    QueryAllProductDependencies_prefix [of db productID handler t]
  by (simp add: QueryAllProductDependencies_keep delivered_def)

text \<open>
  The example store holds the cycle a \<open>\<rightarrow>\<close> b \<open>\<rightarrow>\<close> c \<open>\<rightarrow>\<close> a. Asked for the product of a
  (id 2), the call shows the products of b and c, once each, and not the product of a.
\<close>

theorem all_product_dependencies_witness:
  "distinct (map m_productID (Products exampleDatabase))
   \<and> QueryAllProductDependencies (connect exampleDatabase) 2 (recording (keepWith observe))
       ([], ())
     = (True, ([exampleProduct 1 2 ''pc/b.dds'', exampleProduct 3 3 ''pc/c.dds''], ()))
   \<and> {P. \<exists>R \<in> set (Products exampleDatabase).
            m_productID R = 2 \<and> P \<noteq> R \<and> (dependsOn exampleDatabase)\<^sup>+\<^sup>+ R P}
     = {exampleProduct 1 2 ''pc/b.dds'', exampleProduct 3 3 ''pc/c.dds''}"
proof -
  have ids: "distinct (map m_productID (Products exampleDatabase))"
    by (simp add: exampleDatabase_def exampleProduct_def)
  have rows: "QUERY_ALL_PRODUCTDEPENDENCIES_STATEMENT exampleDatabase 2 =
      [exampleProduct 1 2 ''pc/b.dds'', exampleProduct 3 3 ''pc/c.dds'']"
    by code_simp
  then have call: "QueryAllProductDependencies (connect exampleDatabase) 2
       (recording (keepWith observe)) ([], ())
     = (True, ([exampleProduct 1 2 ''pc/b.dds'', exampleProduct 3 3 ''pc/c.dds''], ()))"
    by (simp add: QueryAllProductDependencies_keep)
  from all_product_dependencies [OF ids, of 2 observe "()", THEN conjunct2, THEN conjunct2,
      THEN conjunct1]
  have "{P. \<exists>R \<in> set (Products exampleDatabase).
            m_productID R = 2 \<and> P \<noteq> R \<and> (dependsOn exampleDatabase)\<^sup>+\<^sup>+ R P}
     = {exampleProduct 1 2 ''pc/b.dds'', exampleProduct 3 3 ''pc/c.dds''}"
    by (simp add: call delivered_def)
  with ids call show ?thesis by simp
qed

end
